theory Spec2Isabelle
  imports Main
begin

section \<open>JavaScript values\<close>

text \<open>
  The metadata handled by the setup service is typed \<open>any\<close>: a value read from the
  store may be an object, a string, an array, a number, \<open>null\<close> or \<open>undefined\<close>.
  Objects are association lists (the first binding of a key is the live one); numbers
  are restricted to integers, which is all the service compares against (\<open>length === 0\<close>).
\<close>

datatype jsval =
    JUndefined
  | JNull
  | JBool bool
  | JNum int
  | JStr string
  | JArr "jsval list"
  | JObj "(string \<times> jsval) list"

text \<open>A thrown value: an \<open>Error\<close> instance with its message, or anything else.\<close>

datatype exn = JsError string | Thrown jsval

text \<open>\<open>error instanceof Error ? error.message : 'Unknown error'\<close>\<close>

fun error_message :: "exn \<Rightarrow> string" where
  "error_message (JsError m) = m"
| "error_message (Thrown v) = ''Unknown error''"

text \<open>Truthiness, as tested by \<open>if (v)\<close>, \<open>!v\<close> and \<open>v || w\<close>.\<close>

fun js_truthy :: "jsval \<Rightarrow> bool" where
  "js_truthy JUndefined = False"
| "js_truthy JNull = False"
| "js_truthy (JBool b) = b"
| "js_truthy (JNum n) = (n \<noteq> 0)"
| "js_truthy (JStr s) = (s \<noteq> [])"
| "js_truthy (JArr xs) = True"
| "js_truthy (JObj kvs) = True"

definition js_or :: "jsval \<Rightarrow> jsval \<Rightarrow> jsval" where
  "js_or a b = (if js_truthy a then a else b)"

text \<open>Decimal rendering of an array index, the property key of an element.\<close>

definition digit_char :: "nat \<Rightarrow> char" where
  "digit_char d = ''0123456789'' ! d"

function show_nat :: "nat \<Rightarrow> string" where
  "show_nat n = (if n < 10 then [digit_char n] else show_nat (n div 10) @ [digit_char (n mod 10)])"
  by pat_completeness auto
termination
  by (relation "measure (\<lambda>n. n)") auto

declare show_nat.simps [simp del]

text \<open>
  Own enumerable properties, in order: what \<open>{...v}\<close> copies. A string spreads into its
  characters and an array into its elements, both under their indices; the other
  primitives contribute nothing.
\<close>

fun js_spread :: "jsval \<Rightarrow> (string \<times> jsval) list" where
  "js_spread (JObj kvs) = kvs"
| "js_spread (JStr s) = map (\<lambda>i. (show_nat i, JStr [s ! i])) [0..<length s]"
| "js_spread (JArr xs) = map (\<lambda>i. (show_nat i, xs ! i)) [0..<length xs]"
| "js_spread v = []"

text \<open>
  Property read \<open>v.k\<close>: a TypeError on \<open>null\<close> and \<open>undefined\<close>, the bound value or
  \<open>undefined\<close> otherwise. Strings and arrays answer \<open>length\<close> and their indices.
  Inherited (prototype) members are not modelled; the service reads none.
\<close>

definition type_error :: "string \<Rightarrow> string \<Rightarrow> exn" where
  "type_error what k =
     JsError (''Cannot read properties of '' @ what @ '' (reading '' @ [CHR 0x27] @ k @ [CHR 0x27] @ '')'')"

definition lookup_or_undefined :: "(string \<times> jsval) list \<Rightarrow> string \<Rightarrow> jsval" where
  "lookup_or_undefined kvs k = (case map_of kvs k of Some v \<Rightarrow> v | None \<Rightarrow> JUndefined)"

fun js_get :: "jsval \<Rightarrow> string \<Rightarrow> exn + jsval" where
  "js_get JUndefined k = Inl (type_error ''undefined'' k)"
| "js_get JNull k = Inl (type_error ''null'' k)"
| "js_get (JObj kvs) k = Inr (lookup_or_undefined kvs k)"
| "js_get (JArr xs) k =
     Inr (if k = ''length'' then JNum (int (length xs))
          else lookup_or_undefined (js_spread (JArr xs)) k)"
| "js_get (JStr s) k =
     Inr (if k = ''length'' then JNum (int (length s))
          else lookup_or_undefined (js_spread (JStr s)) k)"
| "js_get v k = Inr JUndefined"

text \<open>Optional chaining \<open>v?.k\<close>: \<open>undefined\<close> instead of the TypeError.\<close>

definition js_get_opt :: "jsval \<Rightarrow> string \<Rightarrow> jsval" where
  "js_get_opt v k = (case js_get v k of Inl e \<Rightarrow> JUndefined | Inr w \<Rightarrow> w)"

text \<open>
  An object literal \<open>{...a, k: v}\<close> or \<open>{...a, ...b}\<close>: a later property replaces the
  value of an earlier one of the same name in place, a new name is appended.
\<close>

fun set_prop :: "string \<Rightarrow> jsval \<Rightarrow> (string \<times> jsval) list \<Rightarrow> (string \<times> jsval) list" where
  "set_prop k v [] = [(k, v)]"
| "set_prop k v (p # ps) = (if fst p = k then (k, v) # ps else p # set_prop k v ps)"

definition assign_all :: "(string \<times> jsval) list \<Rightarrow> (string \<times> jsval) list \<Rightarrow> (string \<times> jsval) list" where
  "assign_all target src = foldl (\<lambda>acc kv. set_prop (fst kv) (snd kv) acc) target src"

section \<open>Identifiers\<close>

definition starts_with :: "string \<Rightarrow> string \<Rightarrow> bool" where
  "starts_with s p = (take (length p) s = p)"

text \<open>\<open>organizationId.replace(/^organization:/, '')\<close>\<close>

definition clean_org_id :: "string \<Rightarrow> string" where
  "clean_org_id organizationId =
     (if starts_with organizationId ''organization:''
      then drop (length ''organization:'') organizationId else organizationId)"

text \<open>The database of an organization: \<open>`org_${orgId}`\<close>.\<close>

definition org_database :: "string \<Rightarrow> string" where
  "org_database orgId = ''org_'' @ orgId"

section \<open>Configuration, environment and manager state\<close>

text \<open>The fields of \<open>env\<close> the manager reads (\<open>env.ts\<close>).\<close>

record config =
  DATABASE_URL :: string
  DATABASE_AUTH_TOKEN :: string
  DATABASE_USERNAME :: string
  DATABASE_PASSWORD :: string
  MAIN_NS :: string
  MAIN_DB :: string
  ORG_NS :: string

text \<open>A \<open>Surreal\<close> handle, identified by the order of its creation.\<close>

datatype conn = Conn nat

text \<open>A value bound to a query variable: a \<open>StringRecordId\<close> or a plain value.\<close>

datatype binding = BRecordId string | BValue jsval

text \<open>
  The operations that leave the process. \<open>IoConnect\<close> is \<open>db.connect(env.DATABASE_URL, ...)\<close>
  on a fresh handle, \<open>IoUse\<close> the following \<open>db.use({namespace, database})\<close>,
  \<open>IoQuery\<close> a \<open>db.query(text, bindings)\<close>, \<open>IoReadFile\<close> the \<open>readFile\<close> of a
  schema template and \<open>IoHttpPost\<close> the \<open>axios.post(url, body, {headers})\<close>.
  Console output is not modelled.
\<close>

datatype io =
    IoConnect conn string
  | IoUse conn string string
  | IoQuery conn string "(string \<times> binding) list"
  | IoReadFile string
  | IoHttpPost string string "(string \<times> string) list"

fun is_network :: "io \<Rightarrow> bool" where
  "is_network (IoReadFile f) = False"
| "is_network e = True"

fun is_connect :: "io \<Rightarrow> bool" where
  "is_connect (IoConnect c u) = True"
| "is_connect e = False"

text \<open>The operations on a database handle, as opposed to file reads and HTTP posts.\<close>

fun is_database_io :: "io \<Rightarrow> bool" where
  "is_database_io (IoConnect c u) = True"
| "is_database_io (IoUse c n d) = True"
| "is_database_io (IoQuery c q bs) = True"
| "is_database_io e = False"

text \<open>
  The world outside: how each operation ends, given everything done so far with the
  operation itself last. \<open>net_failure\<close> answers \<open>connect\<close> and \<open>use\<close> (\<open>None\<close>: it
  succeeded), \<open>query_result\<close> a query (the SDK resolves to the array of statement
  results), \<open>file_result\<close> a file read, \<open>post_result\<close> an HTTP post (axios throws on a
  transport error and on a non-success status) and \<open>promise_result\<close> the settlement of
  another caller's connection attempt that this caller awaits. The built-ins
  \<open>JSON.stringify\<close>, Base64 encoding and \<open>join(process.cwd(), file)\<close> are parameters.
\<close>

record world =
  net_failure :: "io list \<Rightarrow> exn option"
  query_result :: "io list \<Rightarrow> exn + jsval list"
  file_result :: "io list \<Rightarrow> exn + string"
  post_result :: "io list \<Rightarrow> exn + jsval"
  promise_result :: "io list \<Rightarrow> nat \<Rightarrow> exn + conn"
  json_stringify :: "jsval \<Rightarrow> string"
  base64 :: "string \<Rightarrow> string"
  cwd_join :: "string \<Rightarrow> string"

text \<open>
  \<open>MultiDatabaseManager\<close>: the two maps, with the number of handles created and the
  operations performed so far. A promise in \<open>connecting\<close> is named by the number of the
  handle its attempt created.
\<close>

record mstate =
  connections :: "string \<rightharpoonup> conn"
  connecting :: "string \<rightharpoonup> nat"
  handles :: nat
  trace :: "io list"

definition init_mstate :: mstate where
  "init_mstate = \<lparr>connections = Map.empty, connecting = Map.empty, handles = 0, trace = []\<rparr>"

definition perform :: "mstate \<Rightarrow> io \<Rightarrow> mstate" where
  "perform s e = s\<lparr>trace := trace s @ [e]\<rparr>"

section \<open>The connection manager (\<open>surrealdb-multi.ts\<close>)\<close>

text \<open>\<open>const key = `${namespace}:${database}`\<close>\<close>

definition conn_key :: "string \<Rightarrow> string \<Rightarrow> string" where
  "conn_key namespace database = namespace @ '':'' @ database"

text \<open>
  \<open>getConnection\<close> up to its \<open>await\<close>, which runs without interruption: a cached
  connection is returned; a registered promise is returned as it is; otherwise
  \<open>createConnection\<close> is entered, which creates the handle and issues \<open>connect\<close> before
  it first suspends, and its promise is registered.
\<close>

datatype pending = Ready conn | Joined nat | Started nat

definition getConnection_begin :: "config \<Rightarrow> mstate \<Rightarrow> string \<Rightarrow> string \<Rightarrow> pending \<times> mstate" where
  "getConnection_begin cfg s namespace database =
     (let key = conn_key namespace database in
      case connections s key of
        Some c \<Rightarrow> (Ready c, s)
      | None \<Rightarrow>
          (case connecting s key of
             Some p \<Rightarrow> (Joined p, s)
           | None \<Rightarrow>
               (let p = handles s;
                    s1 = perform (s\<lparr>handles := Suc p\<rparr>) (IoConnect (Conn p) (DATABASE_URL cfg))
                in (Started p, s1\<lparr>connecting := (connecting s1)(key \<mapsto> p)\<rparr>))))"

text \<open>
  The rest of \<open>createConnection\<close> once \<open>connect\<close> has been issued: a failure of
  \<open>connect\<close> is rethrown, otherwise \<open>use\<close> is issued and the handle returned when it
  succeeds.
\<close>

definition createConnection_rest :: "world \<Rightarrow> mstate \<Rightarrow> nat \<Rightarrow> string \<Rightarrow> string \<Rightarrow> (exn + conn) \<times> mstate" where
  "createConnection_rest w s p namespace database =
     (case net_failure w (trace s) of
        Some e \<Rightarrow> (Inl e, s)
      | None \<Rightarrow>
          (let s1 = perform s (IoUse (Conn p) namespace database) in
           case net_failure w (trace s1) of
             Some e \<Rightarrow> (Inl e, s1)
           | None \<Rightarrow> (Inr (Conn p), s1)))"

text \<open>
  The continuation of the caller that started the attempt, after \<open>await connectionPromise\<close>:
  on success the handle is cached and the registry entry deleted, on failure the
  registry entry is deleted and the error rethrown.
\<close>

definition getConnection_resume :: "mstate \<Rightarrow> string \<Rightarrow> exn + conn \<Rightarrow> mstate" where
  "getConnection_resume s key outcome =
     (case outcome of
        Inr db \<Rightarrow> s\<lparr>connections := (connections s)(key \<mapsto> db), connecting := (connecting s)(key := None)\<rparr>
      | Inl e \<Rightarrow> s\<lparr>connecting := (connecting s)(key := None)\<rparr>)"

text \<open>
  \<open>getConnection\<close> as one caller sees it, run to its end. A caller that joins another
  caller's attempt resumes after that attempt's own continuation, which is therefore
  applied to the maps.
\<close>

definition getConnection :: "world \<Rightarrow> config \<Rightarrow> mstate \<Rightarrow> string \<Rightarrow> string \<Rightarrow> (exn + conn) \<times> mstate" where
  "getConnection w cfg s namespace database =
     (case getConnection_begin cfg s namespace database of
        (Ready c, s1) \<Rightarrow> (Inr c, s1)
      | (Joined p, s1) \<Rightarrow>
          (let r = promise_result w (trace s1) p
           in (r, getConnection_resume s1 (conn_key namespace database) r))
      | (Started p, s1) \<Rightarrow>
          (case createConnection_rest w s1 p namespace database of
             (r, s2) \<Rightarrow> (r, getConnection_resume s2 (conn_key namespace database) r)))"

text \<open>\<open>getOrganizationDatabase\<close>: the addressed namespace and database, and the call.\<close>

definition getOrganizationDatabase_target :: "config \<Rightarrow> string \<Rightarrow> string \<times> string" where
  "getOrganizationDatabase_target cfg orgId = (ORG_NS cfg, org_database orgId)"

definition getOrganizationDatabase :: "world \<Rightarrow> config \<Rightarrow> mstate \<Rightarrow> string \<Rightarrow> (exn + conn) \<times> mstate" where
  "getOrganizationDatabase w cfg s orgId =
     (case getOrganizationDatabase_target cfg orgId of
        (ns, database) \<Rightarrow> getConnection w cfg s ns database)"

text \<open>\<open>getMainDB = () => dbManager.getConnection(env.MAIN_NS, env.MAIN_DB)\<close>\<close>

definition getMainDB :: "world \<Rightarrow> config \<Rightarrow> mstate \<Rightarrow> (exn + conn) \<times> mstate" where
  "getMainDB w cfg s = getConnection w cfg s (MAIN_NS cfg) (MAIN_DB cfg)"

section \<open>Interleaved callers of \<open>getConnection\<close>\<close>

text \<open>
  JavaScript runs one piece of code at a time: an \<open>async\<close> function runs without
  interruption up to its next \<open>await\<close>. Any number of callers of \<open>getConnection\<close>
  therefore interleave as a sequence of these events:
  \<^item> \<open>Call\<close>: a caller runs \<open>getConnection\<close> up to its \<open>await\<close>;
  \<^item> \<open>ConnectDone\<close>: the \<open>connect\<close> of an attempt ends; on success \<open>createConnection\<close>
    goes on to issue \<open>use\<close>, on failure its promise is rejected;
  \<^item> \<open>UseDone\<close>: the \<open>use\<close> of an attempt ends and the promise is settled;
  \<^item> \<open>Resume\<close>: the caller that started a settled attempt runs its continuation.
  Every attempt ever started is kept with its state, so that the \<open>connect\<close> operations
  performed for a key can be counted.
\<close>

datatype astatus = Connecting | Using | Settled "exn + conn" | Done "exn + conn"

record attempt =
  aid :: nat
  ans :: string
  adb :: string
  astat :: astatus

record sys =
  mgr :: mstate
  attempts :: "attempt list"

datatype event =
    Call string string
  | ConnectDone nat "exn option"
  | UseDone nat "exn option"
  | Resume nat

definition init_sys :: sys where
  "init_sys = \<lparr>mgr = init_mstate, attempts = []\<rparr>"

definition akey :: "attempt \<Rightarrow> string" where
  "akey a = conn_key (ans a) (adb a)"

definition find_attempt :: "sys \<Rightarrow> nat \<Rightarrow> attempt option" where
  "find_attempt s p = find (\<lambda>a. aid a = p) (attempts s)"

definition set_status :: "nat \<Rightarrow> astatus \<Rightarrow> attempt list \<Rightarrow> attempt list" where
  "set_status p st as = map (\<lambda>a. if aid a = p then a\<lparr>astat := st\<rparr> else a) as"

fun step :: "config \<Rightarrow> sys \<Rightarrow> event \<Rightarrow> sys" where
  "step cfg s (Call namespace database) =
     (case getConnection_begin cfg (mgr s) namespace database of
        (Started p, m) \<Rightarrow>
          s\<lparr>mgr := m,
            attempts := attempts s @ [\<lparr>aid = p, ans = namespace, adb = database, astat = Connecting\<rparr>]\<rparr>
      | (h, m) \<Rightarrow> s\<lparr>mgr := m\<rparr>)"
| "step cfg s (ConnectDone p r) =
     (case find_attempt s p of
        None \<Rightarrow> s
      | Some a \<Rightarrow>
          if astat a \<noteq> Connecting then s
          else
            (case r of
               Some e \<Rightarrow> s\<lparr>attempts := set_status p (Settled (Inl e)) (attempts s)\<rparr>
             | None \<Rightarrow>
                 s\<lparr>mgr := perform (mgr s) (IoUse (Conn p) (ans a) (adb a)),
                   attempts := set_status p Using (attempts s)\<rparr>))"
| "step cfg s (UseDone p r) =
     (case find_attempt s p of
        None \<Rightarrow> s
      | Some a \<Rightarrow>
          if astat a \<noteq> Using then s
          else
            (case r of
               Some e \<Rightarrow> s\<lparr>attempts := set_status p (Settled (Inl e)) (attempts s)\<rparr>
             | None \<Rightarrow> s\<lparr>attempts := set_status p (Settled (Inr (Conn p))) (attempts s)\<rparr>))"
| "step cfg s (Resume p) =
     (case find_attempt s p of
        None \<Rightarrow> s
      | Some a \<Rightarrow>
          (case astat a of
             Settled outcome \<Rightarrow>
               s\<lparr>mgr := getConnection_resume (mgr s) (akey a) outcome,
                 attempts := set_status p (Done outcome) (attempts s)\<rparr>
           | st \<Rightarrow> s))"

definition run :: "config \<Rightarrow> event list \<Rightarrow> sys" where
  "run cfg evs = foldl (step cfg) init_sys evs"

text \<open>What the synchronous part of a call hands to its caller.\<close>

definition call_result :: "config \<Rightarrow> sys \<Rightarrow> string \<Rightarrow> string \<Rightarrow> pending" where
  "call_result cfg s namespace database = fst (getConnection_begin cfg (mgr s) namespace database)"

text \<open>
  The attempts for a key: all of them (one \<open>connect\<close> operation each), those in progress
  (started, continuation not yet run), and those that have not ended in failure.
\<close>

fun is_done :: "astatus \<Rightarrow> bool" where
  "is_done (Done outcome) = True"
| "is_done st = False"

fun has_failed :: "astatus \<Rightarrow> bool" where
  "has_failed (Done (Inl e)) = True"
| "has_failed st = False"

definition connects_for :: "sys \<Rightarrow> string \<Rightarrow> attempt list" where
  "connects_for s key = filter (\<lambda>a. akey a = key) (attempts s)"

definition in_progress :: "sys \<Rightarrow> string \<Rightarrow> attempt list" where
  "in_progress s key = filter (\<lambda>a. akey a = key \<and> \<not> is_done (astat a)) (attempts s)"

definition not_failed :: "sys \<Rightarrow> string \<Rightarrow> attempt list" where
  "not_failed s key = filter (\<lambda>a. akey a = key \<and> \<not> has_failed (astat a)) (attempts s)"

definition failed_for :: "sys \<Rightarrow> string \<Rightarrow> attempt list" where
  "failed_for s key = filter (\<lambda>a. akey a = key \<and> has_failed (astat a)) (attempts s)"

text \<open>The settlement of an attempt's promise, which every caller holding it receives.\<close>

fun settled_outcome :: "astatus \<Rightarrow> (exn + conn) option" where
  "settled_outcome (Settled outcome) = Some outcome"
| "settled_outcome (Done outcome) = Some outcome"
| "settled_outcome st = None"

definition outcome_of :: "sys \<Rightarrow> nat \<Rightarrow> (exn + conn) option" where
  "outcome_of s p = (case find_attempt s p of Some a \<Rightarrow> settled_outcome (astat a) | None \<Rightarrow> None)"

text \<open>
  The invariant of the two maps: an attempt whose continuation has not run is the one
  registered for its key, and the key is not cached; an attempt that succeeded is the
  one cached for its key; attempts have distinct numbers, below the handle counter.
\<close>

fun status_ok :: "mstate \<Rightarrow> string \<Rightarrow> nat \<Rightarrow> astatus \<Rightarrow> bool" where
  "status_ok m k p (Done (Inl e)) = True"
| "status_ok m k p (Done (Inr c)) = (c = Conn p \<and> connections m k = Some c)"
| "status_ok m k p (Settled (Inr c)) = (c = Conn p \<and> connecting m k = Some p \<and> connections m k = None)"
| "status_ok m k p st = (connecting m k = Some p \<and> connections m k = None)"

definition inv :: "sys \<Rightarrow> bool" where
  "inv s = (distinct (map aid (attempts s)) \<and>
     (\<forall>a \<in> set (attempts s). aid a < handles (mgr s) \<and> status_ok (mgr s) (akey a) (aid a) (astat a)))"

text \<open>A key that is registered or cached has an attempt that has not failed.\<close>

definition covered :: "sys \<Rightarrow> bool" where
  "covered s = (\<forall>k. connecting (mgr s) k \<noteq> None \<or> connections (mgr s) k \<noteq> None
       \<longrightarrow> (\<exists>a \<in> set (attempts s). akey a = k \<and> \<not> has_failed (astat a)))"

section \<open>Text replacement\<close>

text \<open>
  \<open>String.prototype.replace\<close> with a replacement string expands the patterns of the
  replacement for every match: \<open>$$\<close> is a dollar sign, \<open>$&\<close> the matched text,
  \<open>$`\<close> the text before the match and \<open>$'\<close> the text after it. The regular
  expressions used here have no capture group, so \<open>$1\<close> and \<open>$<name>\<close> stay as written.
\<close>

fun expand_replacement :: "string \<Rightarrow> string \<Rightarrow> string \<Rightarrow> string \<Rightarrow> string" where
  "expand_replacement matched before after [] = []"
| "expand_replacement matched before after [c] = [c]"
| "expand_replacement matched before after (c # d # rest) =
     (if c = CHR ''$'' \<and> d = CHR ''$'' then CHR ''$'' # expand_replacement matched before after rest
      else if c = CHR ''$'' \<and> d = CHR ''&'' then matched @ expand_replacement matched before after rest
      else if c = CHR ''$'' \<and> d = CHR 0x60 then before @ expand_replacement matched before after rest
      else if c = CHR ''$'' \<and> d = CHR 0x27 then after @ expand_replacement matched before after rest
      else c # expand_replacement matched before after (d # rest))"

text \<open>
  \<open>s.replace(/pat/g, replacement)\<close> for a literal, non-empty \<open>pat\<close>: the matches are
  found from left to right without overlap; \<open>before\<close> is the part of the subject
  already passed.
\<close>

function replace_global_from :: "string \<Rightarrow> string \<Rightarrow> string \<Rightarrow> string \<Rightarrow> string" where
  "replace_global_from pat replacement before [] = []"
| "replace_global_from pat replacement before (c # cs) =
     (if pat \<noteq> [] \<and> starts_with (c # cs) pat
      then expand_replacement pat before (drop (length pat) (c # cs)) replacement
           @ replace_global_from pat replacement (before @ pat) (drop (length pat) (c # cs))
      else c # replace_global_from pat replacement (before @ [c]) cs)"
  by pat_completeness auto
termination
  by (relation "measure (\<lambda>(pat, replacement, before, s). length s)") auto

definition replace_global :: "string \<Rightarrow> string \<Rightarrow> string \<Rightarrow> string" where
  "replace_global pat replacement s = replace_global_from pat replacement [] s"

text \<open>\<open>s.replace(pat, replacement)\<close> for a string \<open>pat\<close>: the first occurrence only.\<close>

fun replace_first_from :: "string \<Rightarrow> string \<Rightarrow> string \<Rightarrow> string \<Rightarrow> string" where
  "replace_first_from pat replacement before [] =
     (if pat = [] then expand_replacement pat before [] replacement else [])"
| "replace_first_from pat replacement before (c # cs) =
     (if starts_with (c # cs) pat
      then expand_replacement pat before (drop (length pat) (c # cs)) replacement
           @ drop (length pat) (c # cs)
      else c # replace_first_from pat replacement (before @ [c]) cs)"

definition replace_first :: "string \<Rightarrow> string \<Rightarrow> string \<Rightarrow> string" where
  "replace_first pat replacement s = replace_first_from pat replacement [] s"

text \<open>\<open>s.replace(/^pat/, replacement)\<close> for a literal \<open>pat\<close>.\<close>

definition replace_prefix :: "string \<Rightarrow> string \<Rightarrow> string \<Rightarrow> string" where
  "replace_prefix pat replacement s =
     (if starts_with s pat
      then expand_replacement pat [] (drop (length pat) s) replacement @ drop (length pat) s
      else s)"

definition ends_with :: "string \<Rightarrow> string \<Rightarrow> bool" where
  "ends_with s p = (length p \<le> length s \<and> drop (length s - length p) s = p)"

text \<open>The placeholder of the schema templates and its replacement by the database name.\<close>

definition placeholder :: string where
  "placeholder = ''__DATABASE_NAME__''"

definition replace_database_name :: "string \<Rightarrow> string \<Rightarrow> string" where
  "replace_database_name schemaContent database = replace_global placeholder database schemaContent"

text \<open>
  The substitution as the specification words it, for comparison: every occurrence of
  the placeholder is replaced by the database name, verbatim.
\<close>

function substitute_verbatim :: "string \<Rightarrow> string \<Rightarrow> string \<Rightarrow> string" where
  "substitute_verbatim pat name [] = []"
| "substitute_verbatim pat name (c # cs) =
     (if pat \<noteq> [] \<and> starts_with (c # cs) pat
      then name @ substitute_verbatim pat name (drop (length pat) (c # cs))
      else c # substitute_verbatim pat name cs)"
  by pat_completeness auto
termination
  by (relation "measure (\<lambda>(pat, name, s). length s)") auto

section \<open>Provisioning (\<open>createOrganizationDatabase\<close>, \<open>checkOrganizationDatabaseExists\<close>)\<close>

definition schema_file :: "string \<Rightarrow> string" where
  "schema_file orgType =
     (if orgType = ''retail'' then ''schema-retail.surql'' else ''schema-restaurant.surql'')"

definition http_url :: "config \<Rightarrow> string" where
  "http_url cfg =
     (let dbUrl = replace_prefix ''wss:'' ''https:'' (replace_prefix ''ws:'' ''http:'' (DATABASE_URL cfg))
      in if ends_with dbUrl ''/rpc'' then replace_first ''/rpc'' ''/sql'' dbUrl else dbUrl @ ''/sql'')"

definition http_headers :: "world \<Rightarrow> config \<Rightarrow> string \<Rightarrow> (string \<times> string) list" where
  "http_headers w cfg database =
     [(''Content-Type'', ''application/octet-stream''),
      (''Accept'', ''application/json''),
      (''Authorization'', ''Basic '' @ base64 w (DATABASE_USERNAME cfg @ '':'' @ DATABASE_PASSWORD cfg)),
      (''Surreal-NS'', ''needexcel_organization''),
      (''Surreal-DB'', database)]"

text \<open>
  \<open>createOrganizationDatabase\<close>: the template is read, the placeholder replaced and the
  script posted; every error is logged and rethrown. The value returned is the
  response body.
\<close>

definition createOrganizationDatabase :: "world \<Rightarrow> config \<Rightarrow> mstate \<Rightarrow> string \<Rightarrow> string \<Rightarrow> (exn + jsval) \<times> mstate" where
  "createOrganizationDatabase w cfg s orgId orgType =
     (let database = org_database orgId;
          s1 = perform s (IoReadFile (cwd_join w (schema_file orgType)))
      in case file_result w (trace s1) of
           Inl e \<Rightarrow> (Inl e, s1)
         | Inr content \<Rightarrow>
             (let schemaContent = replace_database_name content database;
                  s2 = perform s1 (IoHttpPost (http_url cfg) schemaContent (http_headers w cfg database))
              in case post_result w (trace s2) of
                   Inl e \<Rightarrow> (Inl e, s2)
                 | Inr body \<Rightarrow> (Inr body, s2)))"

text \<open>
  \<open>checkOrganizationDatabaseExists\<close>: \<open>true\<close> at once when the key is cached; otherwise
  a connection is obtained and \<open>INFO FOR DB;\<close> run, and any error gives \<open>false\<close>.
\<close>

definition checkOrganizationDatabaseExists :: "world \<Rightarrow> config \<Rightarrow> mstate \<Rightarrow> string \<Rightarrow> (exn + bool) \<times> mstate" where
  "checkOrganizationDatabaseExists w cfg s orgId =
     (let database = org_database orgId;
          key = ''needexcel_organization:'' @ database
      in if connections s key \<noteq> None then (Inr True, s)
         else
           (case getConnection w cfg s ''needexcel_organization'' database of
              (Inl e, s1) \<Rightarrow> (Inr False, s1)
            | (Inr db, s1) \<Rightarrow>
                (let s2 = perform s1 (IoQuery db ''INFO FOR DB;'' [])
                 in case query_result w (trace s2) of
                      Inl e \<Rightarrow> (Inr False, s2)
                    | Inr result \<Rightarrow> (Inr (0 < length result), s2))))"

section \<open>The setup service (\<open>setup.service.ts\<close>)\<close>

text \<open>The record id queried by \<open>updateOrganizationMetadata\<close>.\<close>

definition record_id :: "string \<Rightarrow> string" where
  "record_id organizationId =
     (if starts_with organizationId ''organization:'' then organizationId
      else ''organization:'' @ organizationId)"

text \<open>\<open>orgResult?.[0]\<close> on the array a query resolves to.\<close>

definition first_result :: "jsval list \<Rightarrow> jsval" where
  "first_result orgResult = (case orgResult of [] \<Rightarrow> JUndefined | r # rs \<Rightarrow> r)"

text \<open>
  The merge of \<open>updateOrganizationMetadata\<close>:
  \<open>{...currentMetadata, setup: {...(currentMetadata.setup || {}), ...metadata}}\<close>.
  \<open>currentMetadata\<close> is truthy or \<open>{}\<close>, so reading \<open>.setup\<close> cannot throw.
\<close>

definition merge_setup :: "jsval \<Rightarrow> (string \<times> jsval) list \<Rightarrow> jsval" where
  "merge_setup currentMetadata metadata =
     JObj (set_prop ''setup''
            (JObj (assign_all (js_spread (js_or (js_get_opt currentMetadata ''setup'') (JObj []))) metadata))
            (js_spread currentMetadata))"

definition select_metadata :: "conn \<Rightarrow> string \<Rightarrow> io" where
  "select_metadata authDb rid = IoQuery authDb ''SELECT metadata FROM $orgId'' [(''orgId'', BRecordId rid)]"

definition update_metadata :: "conn \<Rightarrow> string \<Rightarrow> jsval \<Rightarrow> io" where
  "update_metadata authDb rid v =
     IoQuery authDb ''UPDATE $orgId SET metadata = $metadata''
       [(''orgId'', BRecordId rid), (''metadata'', BValue v)]"

text \<open>
  \<open>updateOrganizationMetadata\<close>: the current metadata is read from the main database,
  merged, and written back as \<open>JSON.stringify(updatedMetadata)\<close>; every error is logged
  and rethrown.
\<close>

definition updateOrganizationMetadata :: "world \<Rightarrow> config \<Rightarrow> mstate \<Rightarrow> string \<Rightarrow> (string \<times> jsval) list \<Rightarrow> (exn + unit) \<times> mstate" where
  "updateOrganizationMetadata w cfg s organizationId metadata =
     (case getMainDB w cfg s of
        (Inl e, s1) \<Rightarrow> (Inl e, s1)
      | (Inr authDb, s1) \<Rightarrow>
          (let rid = record_id organizationId;
               s2 = perform s1 (select_metadata authDb rid)
           in case query_result w (trace s2) of
                Inl e \<Rightarrow> (Inl e, s2)
              | Inr orgResult \<Rightarrow>
                  (let orgRecord = js_get_opt (first_result orgResult) ''0'';
                       currentMetadata = js_or (js_get_opt orgRecord ''metadata'') (JObj []);
                       updatedMetadata = merge_setup currentMetadata metadata;
                       s3 = perform s2 (update_metadata authDb rid (JStr (json_stringify w updatedMetadata)))
                   in case query_result w (trace s3) of
                        Inl e \<Rightarrow> (Inl e, s3)
                      | Inr r \<Rightarrow> (Inr (), s3))))"

record SetupResult =
  success :: bool
  database :: string
  organizationType :: string
  error :: "string option"
  timestamp :: string

definition invalid_type_message :: "string \<Rightarrow> string" where
  "invalid_type_message t =
     ''Invalid organization type: '' @ t @ ''. Must be '' @ [CHR 0x27] @ ''retail'' @ [CHR 0x27]
       @ '' or '' @ [CHR 0x27] @ ''restaurant'' @ [CHR 0x27]"

definition completed_patch :: "string \<Rightarrow> string \<Rightarrow> string \<Rightarrow> (string \<times> jsval) list" where
  "completed_patch cleanOrgId ts orgType =
     [(''database'', JStr (org_database cleanOrgId)),
      (''setupStatus'', JStr ''completed''),
      (''setupTimestamp'', JStr ts),
      (''organizationType'', JStr orgType)]"

definition failed_patch :: "string \<Rightarrow> string \<Rightarrow> (string \<times> jsval) list" where
  "failed_patch errorMessage ts =
     [(''setupStatus'', JStr ''failed''),
      (''setupError'', JStr errorMessage),
      (''setupTimestamp'', JStr ts)]"

text \<open>
  The \<open>try\<close> block of \<open>setupOrganizationDatabase\<close>: the type is validated, the database
  created, the outcome recorded; \<open>ts\<close> is \<open>new Date().toISOString()\<close>.
\<close>

definition setup_try :: "world \<Rightarrow> config \<Rightarrow> mstate \<Rightarrow> string \<Rightarrow> string \<Rightarrow> string \<Rightarrow> (exn + SetupResult) \<times> mstate" where
  "setup_try w cfg s ts organizationId orgType =
     (let cleanOrgId = clean_org_id organizationId in
      if orgType \<noteq> ''retail'' \<and> orgType \<noteq> ''restaurant''
      then (Inl (JsError (invalid_type_message orgType)), s)
      else
        (case createOrganizationDatabase w cfg s cleanOrgId orgType of
           (Inl e, s1) \<Rightarrow> (Inl e, s1)
         | (Inr body, s1) \<Rightarrow>
             (case updateOrganizationMetadata w cfg s1 organizationId (completed_patch cleanOrgId ts orgType) of
                (Inl e, s2) \<Rightarrow> (Inl e, s2)
              | (Inr u, s2) \<Rightarrow>
                  (Inr \<lparr>success = True, database = org_database cleanOrgId, organizationType = orgType,
                        error = None, timestamp = ts\<rparr>, s2))))"

text \<open>
  \<open>setupOrganizationDatabase\<close>: whatever the \<open>try\<close> block throws is caught; the failure
  is recorded in a \<open>try\<close> of its own, whose error is logged and dropped.
\<close>

definition setupOrganizationDatabase :: "world \<Rightarrow> config \<Rightarrow> mstate \<Rightarrow> string \<Rightarrow> string \<Rightarrow> string \<Rightarrow> (exn + SetupResult) \<times> mstate" where
  "setupOrganizationDatabase w cfg s ts organizationId orgType =
     (case setup_try w cfg s ts organizationId orgType of
        (Inr r, s1) \<Rightarrow> (Inr r, s1)
      | (Inl e, s1) \<Rightarrow>
          (let errorMessage = error_message e;
               cleanOrgId = clean_org_id organizationId
           in case updateOrganizationMetadata w cfg s1 organizationId (failed_patch errorMessage ts) of
                (r, s2) \<Rightarrow>
                  (Inr \<lparr>success = False, database = org_database cleanOrgId, organizationType = orgType,
                        error = Some errorMessage, timestamp = ts\<rparr>, s2)))"

record CheckResult =
  isSetup :: bool
  check_database :: jsval
  status :: jsval
  check_error :: jsval
  check_metadata :: jsval

definition full_org_id :: "string \<Rightarrow> string" where
  "full_org_id organizationId =
     (if CHR '':'' \<in> set organizationId then organizationId else ''organization:'' @ organizationId)"

definition select_organization :: "conn \<Rightarrow> string \<Rightarrow> io" where
  "select_organization authDb rid =
     IoQuery authDb ''SELECT id, metadata FROM $orgId'' [(''orgId'', BRecordId rid)]"

text \<open>
  The \<open>try\<close> block of \<open>checkOrganizationSetup\<close>. \<open>orgRecords\<close> is truthy where its
  \<open>length\<close> and first element are read, and \<open>setupMetadata\<close> where its fields are read,
  so these reads cannot throw; \<open>org.metadata\<close> can. An absent field of the result is
  \<open>JUndefined\<close>.
\<close>

definition check_try :: "world \<Rightarrow> config \<Rightarrow> mstate \<Rightarrow> string \<Rightarrow> (exn + CheckResult) \<times> mstate" where
  "check_try w cfg s organizationId =
     (let cleanOrgId = clean_org_id organizationId in
      case getMainDB w cfg s of
        (Inl e, s1) \<Rightarrow> (Inl e, s1)
      | (Inr authDb, s1) \<Rightarrow>
          (let s2 = perform s1 (select_organization authDb (full_org_id organizationId))
           in case query_result w (trace s2) of
                Inl e \<Rightarrow> (Inl e, s2)
              | Inr orgResult \<Rightarrow>
                  (let orgRecords = first_result orgResult in
                   if \<not> js_truthy orgRecords \<or> js_get_opt orgRecords ''length'' = JNum 0
                   then (Inr \<lparr>isSetup = False, check_database = JStr (org_database cleanOrgId),
                              status = JStr ''pending'', check_error = JStr ''Organization not found'',
                              check_metadata = JUndefined\<rparr>, s2)
                   else
                     (case js_get (js_get_opt orgRecords ''0'') ''metadata'' of
                        Inl e \<Rightarrow> (Inl e, s2)
                      | Inr md \<Rightarrow>
                          (let setupMetadata = js_get_opt md ''setup'' in
                           case checkOrganizationDatabaseExists w cfg s2 cleanOrgId of
                             (Inl e, s3) \<Rightarrow> (Inl e, s3)
                           | (Inr dbExists, s3) \<Rightarrow>
                               if \<not> dbExists
                               then (Inr \<lparr>isSetup = False, check_database = JStr (org_database cleanOrgId),
                                          status = JStr ''pending'', check_error = JStr ''Database does not exist'',
                                          check_metadata = JUndefined\<rparr>, s3)
                               else if js_truthy setupMetadata
                               then (Inr \<lparr>isSetup = (js_get_opt setupMetadata ''setupStatus'' = JStr ''completed''),
                                          check_database = js_or (js_get_opt setupMetadata ''database'')
                                                             (JStr (org_database cleanOrgId)),
                                          status = js_or (js_get_opt setupMetadata ''setupStatus'') (JStr ''pending''),
                                          check_error = js_get_opt setupMetadata ''setupError'',
                                          check_metadata = setupMetadata\<rparr>, s3)
                               else (Inr \<lparr>isSetup = True, check_database = JStr (org_database cleanOrgId),
                                          status = JStr ''completed'', check_error = JUndefined,
                                          check_metadata = JUndefined\<rparr>, s3))))))"

text \<open>\<open>checkOrganizationSetup\<close>: an error of the \<open>try\<close> block becomes a \<open>failed\<close> result.\<close>

definition checkOrganizationSetup :: "world \<Rightarrow> config \<Rightarrow> mstate \<Rightarrow> string \<Rightarrow> (exn + CheckResult) \<times> mstate" where
  "checkOrganizationSetup w cfg s organizationId =
     (case check_try w cfg s organizationId of
        (Inr r, s1) \<Rightarrow> (Inr r, s1)
      | (Inl e, s1) \<Rightarrow>
          (Inr \<lparr>isSetup = False, check_database = JStr (org_database (clean_org_id organizationId)),
                status = JStr ''failed'', check_error = JStr (error_message e),
                check_metadata = JUndefined\<rparr>, s1))"

section \<open>Sample configuration and environments\<close>

text \<open>
  A configuration with the defaults of \<open>env.ts\<close>, and environments in which the network
  and the file system answer as given; they serve as concrete inputs below. The sample
  serializer only marks the top-level keys it is given.
\<close>

definition sample_config :: config where
  "sample_config =
     \<lparr>DATABASE_URL = ''ws://db:8000/rpc'', DATABASE_AUTH_TOKEN = ''token'',
      DATABASE_USERNAME = ''root'', DATABASE_PASSWORD = ''secret'',
      MAIN_NS = ''needxlife'', MAIN_DB = ''core'', ORG_NS = ''needexcel_organization''\<rparr>"

fun sample_stringify :: "jsval \<Rightarrow> string" where
  "sample_stringify (JObj kvs) = ''{'' @ concat (map fst kvs) @ ''}''"
| "sample_stringify v = ''?''"

definition sample_world :: "(io list \<Rightarrow> exn + jsval list) \<Rightarrow> (io list \<Rightarrow> exn + jsval) \<Rightarrow> world" where
  "sample_world qr pr =
     \<lparr>net_failure = (\<lambda>tr. None), query_result = qr,
      file_result = (\<lambda>tr. Inr ''DEFINE DATABASE __DATABASE_NAME__;''),
      post_result = pr,
      promise_result = (\<lambda>tr p. Inl (JsError ''rejected'')),
      json_stringify = sample_stringify, base64 = (\<lambda>s. s),
      cwd_join = (\<lambda>f. ''/app/'' @ f)\<rparr>"

text \<open>A store that holds one organization record and accepts every query.\<close>

definition one_record :: "jsval \<Rightarrow> io list \<Rightarrow> exn + jsval list" where
  "one_record metadata tr = Inr [JArr [JObj [(''id'', JStr ''organization:abc''), (''metadata'', metadata)]]]"

text \<open>A store that holds no record.\<close>

definition no_record :: "io list \<Rightarrow> exn + jsval list" where
  "no_record tr = Inr [JArr []]"

text \<open>A store that answers reads like \<open>one_record\<close> and refuses every \<open>UPDATE\<close>.\<close>

fun is_update :: "io \<Rightarrow> bool" where
  "is_update (IoQuery c q bs) = starts_with q ''UPDATE''"
| "is_update e = False"

definition read_only :: "jsval \<Rightarrow> io list \<Rightarrow> exn + jsval list" where
  "read_only metadata tr =
     (if tr \<noteq> [] \<and> is_update (last tr) then Inl (JsError ''write refused'')
      else one_record metadata tr)"

definition post_ok :: "io list \<Rightarrow> exn + jsval" where
  "post_ok tr = Inr (JArr [])"

definition post_refused :: "io list \<Rightarrow> exn + jsval" where
  "post_refused tr = Inl (JsError ''Request failed with status code 400'')"

text \<open>
  A store that keeps what it is given: the metadata of a record is the value bound to
  \<open>$metadata\<close> by the last \<open>UPDATE\<close> of that record (the initial value before any), and
  a \<open>SELECT\<close> of the record answers with it. The store itself is outside the
  repository; this is the behaviour the service relies on. \<open>json_text\<close> stands for
  \<open>JSON.stringify\<close> in this environment: it renders the values used here as
  \<open>JSON.stringify\<close> does (strings without characters that need escaping).
\<close>

fun json_text :: "jsval \<Rightarrow> string"
  and json_items :: "jsval list \<Rightarrow> string"
  and json_props :: "(string \<times> jsval) list \<Rightarrow> string" where
  "json_text JUndefined = ''null''"
| "json_text JNull = ''null''"
| "json_text (JBool b) = (if b then ''true'' else ''false'')"
| "json_text (JNum n) = (if n < 0 then ''-'' @ show_nat (nat (- n)) else show_nat (nat n))"
| "json_text (JStr s) = [CHR 0x22] @ s @ [CHR 0x22]"
| "json_text (JArr xs) = ''['' @ json_items xs @ '']''"
| "json_text (JObj kvs) = ''{'' @ json_props kvs @ ''}''"
| "json_items [] = []"
| "json_items [x] = json_text x"
| "json_items (x # y # xs) = json_text x @ '','' @ json_items (y # xs)"
| "json_props [] = []"
| "json_props [kv] = [CHR 0x22] @ fst kv @ [CHR 0x22] @ '':'' @ json_text (snd kv)"
| "json_props (kv # kw # kvs) =
     [CHR 0x22] @ fst kv @ [CHR 0x22] @ '':'' @ json_text (snd kv) @ '','' @ json_props (kw # kvs)"

fun written :: "io \<Rightarrow> (string \<times> jsval) option" where
  "written (IoQuery c q bs) =
     (if q = ''UPDATE $orgId SET metadata = $metadata''
      then (case (map_of bs ''orgId'', map_of bs ''metadata'') of
              (Some (BRecordId rid), Some (BValue v)) \<Rightarrow> Some (rid, v)
            | other \<Rightarrow> None)
      else None)"
| "written e = None"

definition stored :: "jsval \<Rightarrow> string \<Rightarrow> io list \<Rightarrow> jsval" where
  "stored initial rid tr =
     foldl (\<lambda>current e. case written e of
                           Some (r, v) \<Rightarrow> if r = rid then v else current
                         | None \<Rightarrow> current) initial tr"

fun selected :: "io \<Rightarrow> string option" where
  "selected (IoQuery c q bs) =
     (if starts_with q ''SELECT''
      then (case map_of bs ''orgId'' of Some (BRecordId rid) \<Rightarrow> Some rid | other \<Rightarrow> None)
      else None)"
| "selected e = None"

definition keeping :: "jsval \<Rightarrow> io list \<Rightarrow> exn + jsval list" where
  "keeping initial tr =
     (if tr = [] then Inr []
      else (case selected (last tr) of
              Some rid \<Rightarrow> Inr [JArr [JObj [(''id'', JStr rid), (''metadata'', stored initial rid tr)]]]
            | None \<Rightarrow> Inr [JArr []]))"

definition store_world :: "jsval \<Rightarrow> (io list \<Rightarrow> exn + jsval) \<Rightarrow> world" where
  "store_world initial pr = (sample_world (keeping initial) pr)\<lparr>json_stringify := json_text\<rparr>"

section \<open>Single flight of connection attempts\<close>

subsection \<open>The invariant holds in every reachable state\<close>

lemma aid_set_status [simp]: "map aid (set_status p st as) = map aid as"
  by (induction as) (auto simp: set_status_def)

lemma set_set_status:
  "set (set_status p st as) = (\<lambda>a. if aid a = p then a\<lparr>astat := st\<rparr> else a) ` set as"
  by (simp add: set_status_def)

lemma akey_astat [simp]: "akey (a\<lparr>astat := st\<rparr>) = akey a"
  by (simp add: akey_def)

lemma find_attemptD: "find_attempt s p = Some a \<Longrightarrow> a \<in> set (attempts s) \<and> aid a = p"
  by (auto simp: find_attempt_def find_Some_iff)

lemma inv_init: "inv init_sys"
  by (simp add: inv_def init_sys_def)

lemma status_ok_live:
  "\<not> has_failed st \<Longrightarrow> status_ok m k p st \<Longrightarrow> connecting m k = Some p \<or> connections m k = Some (Conn p)"
  by (cases "(m, k, p, st)" rule: status_ok.cases) auto

lemma inv_call: assumes "inv s" shows "inv (step cfg s (Call ns db))"
proof (cases "connections (mgr s) (conn_key ns db)")
  case (Some c)
  with assms show ?thesis by (simp add: getConnection_begin_def inv_def)
next
  case None
  show ?thesis
  proof (cases "connecting (mgr s) (conn_key ns db)")
    case (Some p)
    with None assms show ?thesis by (simp add: getConnection_begin_def inv_def)
  next
    case N2: None
    have old: "\<And>a. a \<in> set (attempts s) \<Longrightarrow> akey a = conn_key ns db \<Longrightarrow> has_failed (astat a)"
      using assms None N2 status_ok_live unfolding inv_def by fastforce
    have keep: "\<And>a (m'::mstate). a \<in> set (attempts s) \<Longrightarrow> 
        connections m' = connections (mgr s) \<Longrightarrow> connecting m' = (connecting (mgr s))(conn_key ns db \<mapsto> handles (mgr s)) \<Longrightarrow>
        status_ok m' (akey a) (aid a) (astat a)"
    proof -
      fix a and m' :: mstate assume a: "a \<in> set (attempts s)" and c: "connections m' = connections (mgr s)"
        and d: "connecting m' = (connecting (mgr s))(conn_key ns db \<mapsto> handles (mgr s))"
      have ok: "status_ok (mgr s) (akey a) (aid a) (astat a)" using assms a by (simp add: inv_def)
      show "status_ok m' (akey a) (aid a) (astat a)"
      proof (cases "akey a = conn_key ns db")
        case True
        then have "has_failed (astat a)" using old a by simp
        then show ?thesis by (cases "astat a" rule: has_failed.cases) auto
      next
        case False
        with ok c d show ?thesis
          by (cases "(mgr s, akey a, aid a, astat a)" rule: status_ok.cases) auto
      qed
    qed
    from assms None N2 show ?thesis
      by (auto simp: getConnection_begin_def inv_def Let_def perform_def akey_def intro!: keep[unfolded akey_def])
  qed
qed


lemma status_ok_trace [simp]: "status_ok (perform m e) k p st = status_ok m k p st"
  by (cases "(m, k, p, st)" rule: status_ok.cases) (auto simp: perform_def)

lemma same_aid:
  "distinct (map aid as) \<Longrightarrow> x \<in> set as \<Longrightarrow> y \<in> set as \<Longrightarrow> aid x = aid y \<Longrightarrow> x = y"
  by (auto simp: distinct_map dest: inj_onD)

lemma inv_status:
  assumes "inv s" and "find_attempt s p = Some a"
    and "status_ok (mgr s) (akey a) p st"
  shows "inv (s\<lparr>attempts := set_status p st (attempts s)\<rparr>)"
  using assms find_attemptD[OF assms(2)]
  by (auto simp: inv_def set_set_status dest: same_aid)

lemma inv_connect_done: assumes "inv s" shows "inv (step cfg s (ConnectDone p r))"
proof (cases "find_attempt s p")
  case None
  with assms show ?thesis by simp
next
  case (Some a)
  show ?thesis
  proof (cases "astat a = Connecting")
    case False
    with Some assms show ?thesis by simp
  next
    case True
    have a: "a \<in> set (attempts s)" "aid a = p" using find_attemptD[OF Some] by auto
    then have ok: "connecting (mgr s) (akey a) = Some p \<and> connections (mgr s) (akey a) = None"
      using assms True by (auto simp: inv_def)
    show ?thesis
    proof (cases r)
      case None
      have "inv (s\<lparr>attempts := set_status p Using (attempts s)\<rparr>)"
        using assms Some ok by (intro inv_status) auto
      then have "inv (s\<lparr>mgr := perform (mgr s) (IoUse (Conn p) (ans a) (adb a)),
                         attempts := set_status p Using (attempts s)\<rparr>)"
        by (auto simp: inv_def perform_def[of "mgr s"] ) (simp_all add: perform_def[symmetric])
      with Some True None show ?thesis by simp
    next
      case (Some e)
      have "inv (s\<lparr>attempts := set_status p (Settled (Inl e)) (attempts s)\<rparr>)"
        using assms \<open>find_attempt s p = Some a\<close> ok by (intro inv_status) auto
      with \<open>find_attempt s p = Some a\<close> True Some show ?thesis by simp
    qed
  qed
qed

lemma inv_use_done: assumes "inv s" shows "inv (step cfg s (UseDone p r))"
proof (cases "find_attempt s p")
  case None
  with assms show ?thesis by simp
next
  case (Some a)
  show ?thesis
  proof (cases "astat a = Using")
    case False
    with Some assms show ?thesis by simp
  next
    case True
    have a: "a \<in> set (attempts s)" "aid a = p" using find_attemptD[OF Some] by auto
    then have ok: "connecting (mgr s) (akey a) = Some p \<and> connections (mgr s) (akey a) = None"
      using assms True by (auto simp: inv_def)
    have "inv (s\<lparr>attempts := set_status p (Settled (case r of Some e \<Rightarrow> Inl e | None \<Rightarrow> Inr (Conn p))) (attempts s)\<rparr>)"
      using assms Some ok by (intro inv_status) (auto split: option.splits)
    with Some True show ?thesis by (simp split: option.splits)
  qed
qed


lemma status_ok_other:
  assumes "status_ok m k' q st" and "connecting m k = Some p" and "connections m k = None"
    and "q \<noteq> p"
  shows "status_ok (getConnection_resume m k outcome) k' q st"
proof (cases "k' = k")
  case True
  with assms have "has_failed st"
    by (cases "(m, k', q, st)" rule: status_ok.cases) auto
  then show ?thesis by (cases st rule: has_failed.cases) auto
next
  case False
  with assms(1) show ?thesis
    by (cases "(m, k', q, st)" rule: status_ok.cases)
       (auto simp: getConnection_resume_def split: sum.splits)
qed

lemma status_ok_settled:
  "status_ok m k p (Settled outcome) \<Longrightarrow>
     connecting m k = Some p \<and> connections m k = None \<and>
     status_ok (getConnection_resume m k outcome) k p (Done outcome)"
  by (cases outcome) (auto simp: getConnection_resume_def)

lemma handles_resume [simp]: "handles (getConnection_resume m k outcome) = handles m"
  by (simp add: getConnection_resume_def split: sum.splits)

lemma inv_resume: assumes "inv s" shows "inv (step cfg s (Resume p))"
proof (cases "find_attempt s p")
  case None
  with assms show ?thesis by simp
next
  case (Some a)
  have a: "a \<in> set (attempts s)" "aid a = p" using find_attemptD[OF Some] by auto
  show ?thesis
  proof (cases "astat a")
    case (Settled outcome)
    have ok: "status_ok (mgr s) (akey a) p (Settled outcome)"
      using assms a Settled by (auto simp: inv_def)
    note st = status_ok_settled[OF ok]
    have "inv (s\<lparr>mgr := getConnection_resume (mgr s) (akey a) outcome,
                   attempts := set_status p (Done outcome) (attempts s)\<rparr>)"
      unfolding inv_def
    proof (intro conjI ballI)
      show "distinct (map aid (attempts (s\<lparr>mgr := getConnection_resume (mgr s) (akey a) outcome,
                   attempts := set_status p (Done outcome) (attempts s)\<rparr>)))"
        using assms by (simp add: inv_def)
    next
      fix x assume "x \<in> set (attempts (s\<lparr>mgr := getConnection_resume (mgr s) (akey a) outcome,
                   attempts := set_status p (Done outcome) (attempts s)\<rparr>))"
      then obtain y where y: "y \<in> set (attempts s)"
        and x: "x = (if aid y = p then y\<lparr>astat := Done outcome\<rparr> else y)"
        by (auto simp: set_set_status)
      have yok: "aid y < handles (mgr s)" "status_ok (mgr s) (akey y) (aid y) (astat y)"
        using assms y by (auto simp: inv_def)
      show "aid x < handles (mgr (s\<lparr>mgr := getConnection_resume (mgr s) (akey a) outcome,
                   attempts := set_status p (Done outcome) (attempts s)\<rparr>))"
        using yok x by auto
      show "status_ok (mgr (s\<lparr>mgr := getConnection_resume (mgr s) (akey a) outcome,
                   attempts := set_status p (Done outcome) (attempts s)\<rparr>)) (akey x) (aid x) (astat x)"
      proof (cases "aid y = p")
        case True
        then have "y = a" using same_aid[of "attempts s" y a] assms y a by (auto simp: inv_def)
        with x True st a show ?thesis by simp
      next
        case False
        with x yok st show ?thesis by (simp add: status_ok_other)
      qed
    qed
    with Some Settled show ?thesis by simp
  qed (use Some assms in simp_all)
qed

lemma inv_step: "inv s \<Longrightarrow> inv (step cfg s ev)"
  by (cases ev) (simp_all only: inv_call inv_connect_done inv_use_done inv_resume)

lemma inv_foldl: "inv s \<Longrightarrow> inv (foldl (step cfg) s evs)"
  by (induction evs arbitrary: s) (simp_all add: inv_step)

lemma inv_run: "inv (run cfg evs)"
  by (simp add: run_def inv_foldl inv_init)


lemma status_ok_cases:
  "\<not> has_failed st \<Longrightarrow> status_ok m k p st \<Longrightarrow>
     (if is_done st then connections m k = Some (Conn p)
      else connecting m k = Some p \<and> connections m k = None)"
  by (cases "(m, k, p, st)" rule: status_ok.cases) auto

lemma filter_at_most_one:
  assumes "distinct (map f xs)"
    and "\<And>x y. x \<in> set xs \<Longrightarrow> y \<in> set xs \<Longrightarrow> P x \<Longrightarrow> P y \<Longrightarrow> f x = f y"
  shows "length (filter P xs) \<le> 1"
  using assms
proof (induction xs)
  case Nil
  then show ?case by simp
next
  case (Cons a xs)
  show ?case
  proof (cases "P a")
    case False
    with Cons show ?thesis by simp
  next
    case True
    have "filter P xs = []"
    proof (rule ccontr)
      assume "filter P xs \<noteq> []"
      then obtain x where x: "x \<in> set xs" "P x"
        by (auto simp: filter_empty_conv)
      then have "f a = f x" using Cons.prems(2)[of a x] True by simp
      with x Cons.prems(1) show False by auto
    qed
    with True show ?thesis by simp
  qed
qed

lemma not_failed_at_most_one: assumes "inv s" shows "length (not_failed s k) \<le> 1"
  unfolding not_failed_def
proof (rule filter_at_most_one[where f = aid])
  show "distinct (map aid (attempts s))" using assms by (simp add: inv_def)
next
  fix x y assume x: "x \<in> set (attempts s)" and y: "y \<in> set (attempts s)"
    and px: "akey x = k \<and> \<not> has_failed (astat x)" and py: "akey y = k \<and> \<not> has_failed (astat y)"
  have "status_ok (mgr s) k (aid x) (astat x)" "status_ok (mgr s) k (aid y) (astat y)"
    using assms x y px py by (auto simp: inv_def)
  with px py show "aid x = aid y"
    using status_ok_cases[of "astat x" "mgr s" k "aid x"] status_ok_cases[of "astat y" "mgr s" k "aid y"]
    by (auto split: if_splits)
qed

lemma in_progress_le: "length (in_progress s k) \<le> length (not_failed s k)"
proof -
  have "in_progress s k = filter (\<lambda>a. \<not> is_done (astat a)) (not_failed s k)"
    unfolding in_progress_def not_failed_def
    by (auto intro!: filter_cong elim: has_failed.elims)
  then show ?thesis by simp
qed

lemma length_filter_split:
  "length (filter P xs) = length (filter (\<lambda>x. P x \<and> \<not> Q x) xs) + length (filter (\<lambda>x. P x \<and> Q x) xs)"
  by (induction xs) auto

lemma connects_split:
  "length (connects_for s k) = length (not_failed s k) + length (failed_for s k)"
  unfolding connects_for_def not_failed_def failed_for_def
  by (rule length_filter_split)

lemma call_joins_or_hits:
  assumes "inv s" and "a \<in> set (not_failed s (conn_key ns db))"
  shows "attempts (step cfg s (Call ns db)) = attempts s
       \<and> mgr (step cfg s (Call ns db)) = mgr s
       \<and> call_result cfg s ns db = (if is_done (astat a) then Ready (Conn (aid a)) else Joined (aid a))"
proof -
  have a: "a \<in> set (attempts s)" "akey a = conn_key ns db" "\<not> has_failed (astat a)"
    using assms(2) by (auto simp: not_failed_def)
  then have "status_ok (mgr s) (conn_key ns db) (aid a) (astat a)"
    using assms(1) by (auto simp: inv_def)
  from status_ok_cases[OF a(3) this] show ?thesis
    by (auto simp: call_result_def getConnection_begin_def split: if_splits)
qed

lemma find_set_status:
  "find (\<lambda>a. aid a = p) (set_status q st as)
     = map_option (\<lambda>a. if aid a = q then a\<lparr>astat := st\<rparr> else a) (find (\<lambda>a. aid a = p) as)"
  by (induction as) (auto simp: set_status_def)

lemma find_snoc:
  "find P (xs @ [y]) = (case find P xs of Some x \<Rightarrow> Some x | None \<Rightarrow> if P y then Some y else None)"
  by (induction xs) auto

lemma outcome_step:
  assumes "outcome_of s p = Some outcome"
  shows "outcome_of (step cfg s ev) p = Some outcome"
proof -
  from assms obtain a where a: "find_attempt s p = Some a" "settled_outcome (astat a) = Some outcome"
    by (auto simp: outcome_of_def split: option.splits)
  then have p: "aid a = p" using find_attemptD by blast
  show ?thesis
  proof (cases ev)
    case (Call ns db)
    with a show ?thesis
      by (auto simp: outcome_of_def find_attempt_def find_snoc split: prod.splits pending.splits)
  next
    case (ConnectDone q r)
    with a p show ?thesis
      by (cases "q = p")
         (auto simp: outcome_of_def find_attempt_def find_set_status split: option.splits)
  next
    case (UseDone q r)
    with a p show ?thesis
      by (cases "q = p")
         (auto simp: outcome_of_def find_attempt_def find_set_status split: option.splits)
  next
    case (Resume q)
    with a p show ?thesis
      by (cases "q = p")
         (auto simp: outcome_of_def find_attempt_def find_set_status split: option.splits astatus.splits)
  qed
qed

lemma outcome_foldl:
  "outcome_of s p = Some outcome \<Longrightarrow> outcome_of (foldl (step cfg) s evs) p = Some outcome"
  by (induction evs arbitrary: s) (simp_all add: outcome_step)

lemma outcome_stable:
  "outcome_of (run cfg evs) p = Some outcome \<Longrightarrow> outcome_of (run cfg (evs @ later)) p = Some outcome"
  by (simp add: run_def outcome_foldl)

lemma connect_events_step:
  assumes "filter is_connect (trace (mgr s)) = map (\<lambda>a. IoConnect (Conn (aid a)) (DATABASE_URL cfg)) (attempts s)"
  shows "filter is_connect (trace (mgr (step cfg s ev)))
           = map (\<lambda>a. IoConnect (Conn (aid a)) (DATABASE_URL cfg)) (attempts (step cfg s ev))"
proof -
  have m: "\<And>q st. map (\<lambda>a. IoConnect (Conn (aid a)) (DATABASE_URL cfg)) (set_status q st (attempts s))
             = map (\<lambda>a. IoConnect (Conn (aid a)) (DATABASE_URL cfg)) (attempts s)"
    by (simp add: set_status_def comp_def if_distrib cong: if_cong)
  show ?thesis using assms
    by (cases ev)
       (auto simp: m getConnection_begin_def getConnection_resume_def perform_def Let_def
             split: option.splits sum.splits astatus.splits)
qed

lemma connect_events_run:
  "filter is_connect (trace (mgr (run cfg evs)))
     = map (\<lambda>a. IoConnect (Conn (aid a)) (DATABASE_URL cfg)) (attempts (run cfg evs))"
proof -
  have "\<And>s. filter is_connect (trace (mgr s)) = map (\<lambda>a. IoConnect (Conn (aid a)) (DATABASE_URL cfg)) (attempts s)
         \<Longrightarrow> filter is_connect (trace (mgr (foldl (step cfg) s evs)))
             = map (\<lambda>a. IoConnect (Conn (aid a)) (DATABASE_URL cfg)) (attempts (foldl (step cfg) s evs))"
    by (induction evs) (simp_all add: connect_events_step)
  then show ?thesis
    by (simp add: run_def init_sys_def init_mstate_def)
qed

subsection \<open>The attempts for one key\<close>

lemma covered_init: "covered init_sys"
  by (simp add: covered_def init_sys_def init_mstate_def)

lemma covered_call: assumes "covered s" shows "covered (step cfg s (Call ns db))"
  using assms
  by (auto simp: covered_def getConnection_begin_def perform_def akey_def Let_def
      split: option.splits)

lemma covered_status:
  assumes "covered s" and "\<not> has_failed st"
  shows "covered (s\<lparr>attempts := set_status p st (attempts s)\<rparr>)"
  unfolding covered_def
proof (intro allI impI)
  fix k assume "connecting (mgr (s\<lparr>attempts := set_status p st (attempts s)\<rparr>)) k \<noteq> None
      \<or> connections (mgr (s\<lparr>attempts := set_status p st (attempts s)\<rparr>)) k \<noteq> None"
  then obtain a where a: "a \<in> set (attempts s)" "akey a = k" "\<not> has_failed (astat a)"
    using assms(1) by (auto simp: covered_def)
  let ?a = "if aid a = p then a\<lparr>astat := st\<rparr> else a"
  have m: "?a \<in> set (set_status p st (attempts s))" using a(1) by (auto simp: set_set_status)
  have p: "akey ?a = k \<and> \<not> has_failed (astat ?a)" using a assms(2) by auto
  from p m have "\<exists>x\<in>set (set_status p st (attempts s)). akey x = k \<and> \<not> has_failed (astat x)"
    by (rule bexI)
  then show "\<exists>a\<in>set (attempts (s\<lparr>attempts := set_status p st (attempts s)\<rparr>)).
      akey a = k \<and> \<not> has_failed (astat a)"
    by simp
qed

lemma covered_perform:
  "covered (s\<lparr>mgr := perform (mgr s) e, attempts := as\<rparr>) = covered (s\<lparr>attempts := as\<rparr>)"
  by (simp add: covered_def perform_def)

lemma covered_connect_done: assumes "covered s" shows "covered (step cfg s (ConnectDone p r))"
proof (cases "find_attempt s p")
  case None
  with assms show ?thesis by simp
next
  case (Some a)
  show ?thesis
  proof (cases "astat a = Connecting")
    case False
    with Some assms show ?thesis by simp
  next
    case True
    show ?thesis
    proof (cases r)
      case None
      with Some True show ?thesis
        using covered_status[OF assms, of Using p] by (simp add: covered_perform)
    next
      case (Some e)
      with \<open>find_attempt s p = Some a\<close> True show ?thesis
        using covered_status[OF assms, of "Settled (Inl e)" p] by simp
    qed
  qed
qed

lemma covered_use_done: assumes "covered s" shows "covered (step cfg s (UseDone p r))"
proof (cases "find_attempt s p")
  case None
  with assms show ?thesis by simp
next
  case (Some a)
  show ?thesis
  proof (cases "astat a = Using")
    case False
    with Some assms show ?thesis by simp
  next
    case True
    with Some show ?thesis
      using covered_status[OF assms, of "Settled (Inl e)" p for e]
            covered_status[OF assms, of "Settled (Inr (Conn p))" p]
      by (cases r) simp_all
  qed
qed


lemma covered_resume: assumes "inv s" and "covered s" shows "covered (step cfg s (Resume p))"
proof (cases "find_attempt s p")
  case None
  with assms show ?thesis by simp
next
  case (Some a)
  have a: "a \<in> set (attempts s)" "aid a = p" using find_attemptD[OF Some] by auto
  show ?thesis
  proof (cases "astat a")
    case (Settled outcome)
    have ok: "status_ok (mgr s) (akey a) p (Settled outcome)"
      using assms(1) a Settled by (auto simp: inv_def)
    then have reg: "connecting (mgr s) (akey a) = Some p" "connections (mgr s) (akey a) = None"
      using status_ok_settled by blast+
    let ?s = "s\<lparr>mgr := getConnection_resume (mgr s) (akey a) outcome,
                 attempts := set_status p (Done outcome) (attempts s)\<rparr>"
    have "covered ?s"
      unfolding covered_def
    proof (intro allI impI)
      fix k assume k: "connecting (mgr ?s) k \<noteq> None \<or> connections (mgr ?s) k \<noteq> None"
      show "\<exists>x\<in>set (attempts ?s). akey x = k \<and> \<not> has_failed (astat x)"
      proof (cases "k = akey a")
        case True
        with k reg obtain c where c: "outcome = Inr c"
          by (cases outcome) (auto simp: getConnection_resume_def)
        have "a\<lparr>astat := Done outcome\<rparr> \<in> set (set_status p (Done outcome) (attempts s))"
          using a by (force simp: set_set_status)
        moreover have "akey (a\<lparr>astat := Done outcome\<rparr>) = k
            \<and> \<not> has_failed (astat (a\<lparr>astat := Done outcome\<rparr>))"
          using True c by simp
        ultimately have "\<exists>x\<in>set (set_status p (Done outcome) (attempts s)).
            akey x = k \<and> \<not> has_failed (astat x)"
          by blast
        then show ?thesis by simp
      next
        case False
        with k have "connecting (mgr s) k \<noteq> None \<or> connections (mgr s) k \<noteq> None"
          by (auto simp: getConnection_resume_def split: sum.splits)
        then obtain x where x: "x \<in> set (attempts s)" "akey x = k" "\<not> has_failed (astat x)"
          using assms(2) by (auto simp: covered_def)
        have "aid x \<noteq> p"
        proof
          assume "aid x = p"
          then have "x = a" using same_aid[of "attempts s" x a] assms(1) x(1) a by (auto simp: inv_def)
          with x(2) False show False by simp
        qed
        then have "x \<in> set (set_status p (Done outcome) (attempts s))"
          using x(1) by (force simp: set_set_status)
        with x(2,3) have "\<exists>x\<in>set (set_status p (Done outcome) (attempts s)).
            akey x = k \<and> \<not> has_failed (astat x)"
          by blast
        then show ?thesis by simp
      qed
    qed
    with Some Settled show ?thesis by simp
  qed (use Some assms in simp_all)
qed

lemma covered_step: "inv s \<Longrightarrow> covered s \<Longrightarrow> covered (step cfg s ev)"
  by (cases ev) (simp_all only: covered_call covered_connect_done covered_use_done covered_resume)

lemma covered_foldl: "inv s \<Longrightarrow> covered s \<Longrightarrow> covered (foldl (step cfg) s evs)"
  by (induction evs arbitrary: s) (simp_all add: covered_step inv_step)

lemma covered_run: "covered (run cfg evs)"
  by (simp add: run_def covered_foldl covered_init inv_init)

lemma call_starts:
  assumes "covered s" and "not_failed s (conn_key ns db) = []"
  shows "call_result cfg s ns db = Started (handles (mgr s))
       \<and> attempts (step cfg s (Call ns db))
           = attempts s @ [\<lparr>aid = handles (mgr s), ans = ns, adb = db, astat = Connecting\<rparr>]"
proof -
  have "\<not> (\<exists>a \<in> set (attempts s). akey a = conn_key ns db \<and> \<not> has_failed (astat a))"
    using assms(2) by (auto simp: not_failed_def filter_empty_conv)
  then have "connecting (mgr s) (conn_key ns db) = None" "connections (mgr s) (conn_key ns db) = None"
    using assms(1) unfolding covered_def by blast+
  then show ?thesis
    by (simp add: call_result_def getConnection_begin_def Let_def)
qed

text \<open>
  C1 (as amended). In every state reached by any interleaving of calls, settlements and
  continuations, and for every key: at most one attempt for the key is in progress; at
  most one attempt for the key has not ended in failure, so the \<open>connect\<close> operations
  performed for the key are at most one more than those that failed; the \<open>connect\<close>
  operations in the trace are exactly those of the attempts; a call for a key that has
  an attempt which has not failed starts no attempt, and returns the promise of that
  attempt while it is in progress and its cached connection once it has succeeded; a
  call for a key all of whose attempts have failed (or that has none) starts a new
  attempt; and the settlement of a promise, once made, is the same in every later
  state, so all callers holding it receive the same connection or the same error.
\<close>

theorem getConnection_single_flight:
  "length (in_progress (run cfg evs) (conn_key ns db)) \<le> 1
   \<and> length (not_failed (run cfg evs) (conn_key ns db)) \<le> 1
   \<and> length (connects_for (run cfg evs) (conn_key ns db))
         \<le> 1 + length (failed_for (run cfg evs) (conn_key ns db))
   \<and> filter is_connect (trace (mgr (run cfg evs)))
         = map (\<lambda>a. IoConnect (Conn (aid a)) (DATABASE_URL cfg)) (attempts (run cfg evs))
   \<and> (\<forall>a \<in> set (not_failed (run cfg evs) (conn_key ns db)).
          attempts (step cfg (run cfg evs) (Call ns db)) = attempts (run cfg evs)
        \<and> call_result cfg (run cfg evs) ns db
            = (if is_done (astat a) then Ready (Conn (aid a)) else Joined (aid a)))
   \<and> (not_failed (run cfg evs) (conn_key ns db) = []
        \<longrightarrow> call_result cfg (run cfg evs) ns db = Started (handles (mgr (run cfg evs)))
          \<and> attempts (step cfg (run cfg evs) (Call ns db))
              = attempts (run cfg evs)
                @ [\<lparr>aid = handles (mgr (run cfg evs)), ans = ns, adb = db, astat = Connecting\<rparr>])
   \<and> (\<forall>p outcome later. outcome_of (run cfg evs) p = Some outcome
          \<longrightarrow> outcome_of (run cfg (evs @ later)) p = Some outcome)"
proof -
  have i: "inv (run cfg evs)" by (rule inv_run)
  have one: "length (not_failed (run cfg evs) (conn_key ns db)) \<le> 1"
    using i by (rule not_failed_at_most_one)
  have prog: "length (in_progress (run cfg evs) (conn_key ns db)) \<le> 1"
    using one in_progress_le[of "run cfg evs" "conn_key ns db"] by simp
  have total: "length (connects_for (run cfg evs) (conn_key ns db))
         \<le> 1 + length (failed_for (run cfg evs) (conn_key ns db))"
    using one connects_split[of "run cfg evs" "conn_key ns db"] by simp
  have join: "\<forall>a \<in> set (not_failed (run cfg evs) (conn_key ns db)).
          attempts (step cfg (run cfg evs) (Call ns db)) = attempts (run cfg evs)
        \<and> call_result cfg (run cfg evs) ns db
            = (if is_done (astat a) then Ready (Conn (aid a)) else Joined (aid a))"
    using call_joins_or_hits[OF i] by blast
  have stable: "\<forall>p outcome later. outcome_of (run cfg evs) p = Some outcome
          \<longrightarrow> outcome_of (run cfg (evs @ later)) p = Some outcome"
    using outcome_stable by blast
  have start: "not_failed (run cfg evs) (conn_key ns db) = []
        \<longrightarrow> call_result cfg (run cfg evs) ns db = Started (handles (mgr (run cfg evs)))
          \<and> attempts (step cfg (run cfg evs) (Call ns db))
              = attempts (run cfg evs)
                @ [\<lparr>aid = handles (mgr (run cfg evs)), ans = ns, adb = db, astat = Connecting\<rparr>]"
    using call_starts[OF covered_run] by blast
  from prog one total connect_events_run join start stable show ?thesis by blast
qed

lemmas run_simps =
  run_def init_sys_def init_mstate_def getConnection_begin_def conn_key_def perform_def
  find_attempt_def set_status_def akey_def getConnection_resume_def Let_def

theorem getConnection_single_flight_witness:
  "in_progress (run sample_config [Call ''needxlife'' ''core'', Call ''needxlife'' ''core''])
       (conn_key ''needxlife'' ''core'')
     = [\<lparr>aid = 0, ans = ''needxlife'', adb = ''core'', astat = Connecting\<rparr>]
   \<and> length (connects_for (run sample_config [Call ''needxlife'' ''core'', Call ''needxlife'' ''core''])
       (conn_key ''needxlife'' ''core'')) = 1
   \<and> call_result sample_config
         (run sample_config [Call ''needxlife'' ''core'', Call ''needxlife'' ''core''])
         ''needxlife'' ''core'' = Joined 0
   \<and> outcome_of (run sample_config
         ([Call ''needxlife'' ''core'', ConnectDone 0 None, UseDone 0 None]
           @ [Resume 0, Call ''needxlife'' ''core''])) 0 = Some (Inr (Conn 0))"
  using getConnection_single_flight
          [of sample_config "[Call ''needxlife'' ''core'', Call ''needxlife'' ''core'']"
              "''needxlife''" "''core''"]
        getConnection_single_flight
          [of sample_config "[Call ''needxlife'' ''core'', ConnectDone 0 None, UseDone 0 None]"
              "''needxlife''" "''core''"]
  by (simp add: run_simps in_progress_def connects_for_def not_failed_def call_result_def
      outcome_of_def)

text \<open>
  C1 as stated fails: after an attempt has failed its registry entry is deleted, and the
  next call for the key performs a second \<open>connect\<close>.
\<close>

theorem getConnection_retry_counterexample:
  "length (connects_for (run sample_config
      [Call ''needxlife'' ''core'', ConnectDone 0 (Some (JsError ''refused'')), Resume 0,
       Call ''needxlife'' ''core'']) (conn_key ''needxlife'' ''core'')) = 2"
  by (simp add: run_simps connects_for_def)

section \<open>Facts about values, traces and evaluation\<close>

lemmas manager_simps =
  getMainDB_def getConnection_def getConnection_begin_def createConnection_rest_def
  getConnection_resume_def conn_key_def perform_def init_mstate_def Let_def

lemmas service_simps =
  setupOrganizationDatabase_def setup_try_def updateOrganizationMetadata_def
  createOrganizationDatabase_def checkOrganizationSetup_def check_try_def
  checkOrganizationDatabaseExists_def
  select_metadata_def update_metadata_def select_organization_def record_id_def full_org_id_def
  first_result_def merge_setup_def js_get_opt_def js_or_def lookup_or_undefined_def
  assign_all_def failed_patch_def completed_patch_def org_database_def clean_org_id_def
  starts_with_def ends_with_def invalid_type_message_def schema_file_def http_url_def http_headers_def
  replace_database_name_def replace_global_def replace_first_def replace_prefix_def placeholder_def

lemmas sample_simps =
  sample_config_def sample_world_def one_record_def no_record_def read_only_def
  post_ok_def post_refused_def

lemma show_nat_0: "show_nat 0 = ''0''"
  by (simp add: show_nat.simps digit_char_def)

lemma js_get_truthy: "js_truthy v \<Longrightarrow> js_get v k = Inr (js_get_opt v k)"
  by (cases v) (simp_all add: js_get_opt_def)

lemma first_element: "js_get_opt (JArr (x # xs)) ''0'' = x"
  by (simp add: js_get_opt_def lookup_or_undefined_def show_nat_0 upt_rec)

lemma metadata_of_record:
  "map_of r ''metadata'' = Some v \<Longrightarrow> js_get_opt (JObj r) ''metadata'' = v"
  by (simp add: js_get_opt_def lookup_or_undefined_def)

lemma map_of_set_prop: "map_of (set_prop k v kvs) = (map_of kvs)(k \<mapsto> v)"
  by (induction kvs) (auto simp: fun_eq_iff)

lemma map_of_assign_all:
  "distinct (map fst src) \<Longrightarrow> map_of (assign_all target src) = map_of target ++ map_of src"
  unfolding assign_all_def
proof (induction src arbitrary: target)
  case Nil
  then show ?case by simp
next
  case (Cons kv src)
  then have "map_of src (fst kv) = None"
    by (simp add: map_of_eq_None_iff)
  with Cons show ?case
    by (auto simp: map_of_set_prop map_add_def fun_eq_iff split: option.splits)
qed

lemma trace_perform: "trace (perform s e) = trace s @ [e]"
  by (simp add: perform_def)

lemma getConnection_io:
  "\<exists>ext. trace (snd (getConnection w cfg s ns db)) = trace s @ ext \<and> list_all is_database_io ext"
  by (auto simp: getConnection_def getConnection_begin_def createConnection_rest_def
      getConnection_resume_def perform_def Let_def split: option.splits sum.splits)

lemma updateOrganizationMetadata_io:
  "\<exists>ext. trace (snd (updateOrganizationMetadata w cfg s organizationId patch)) = trace s @ ext
         \<and> list_all is_database_io ext"
proof -
  obtain ext where e: "trace (snd (getMainDB w cfg s)) = trace s @ ext" "list_all is_database_io ext"
    using getConnection_io[of w cfg s "MAIN_NS cfg" "MAIN_DB cfg"] by (auto simp: getMainDB_def)
  then show ?thesis
    by (cases "getMainDB w cfg s")
       (auto simp: updateOrganizationMetadata_def perform_def Let_def select_metadata_def
          update_metadata_def split: sum.splits)
qed

lemmas store_simps =
  store_world_def keeping_def stored_def

lemma stored_snoc_update:
  "stored initial rid (tr @ [IoQuery c ''UPDATE $orgId SET metadata = $metadata''
       [(''orgId'', BRecordId rid), (''metadata'', BValue v)]]) = v"
  by (simp add: stored_def)

lemma updateOrganizationMetadata_trace:
  assumes "getMainDB w cfg s = (Inr authDb, s1)"
    and "query_result w (trace s1 @ [IoQuery authDb ''SELECT metadata FROM $orgId''
            [(''orgId'', BRecordId (record_id organizationId))]]) = Inr orgResult"
  shows "trace (snd (updateOrganizationMetadata w cfg s organizationId patch))
     = trace s1 @
       [IoQuery authDb ''SELECT metadata FROM $orgId'' [(''orgId'', BRecordId (record_id organizationId))],
        IoQuery authDb ''UPDATE $orgId SET metadata = $metadata''
          [(''orgId'', BRecordId (record_id organizationId)),
           (''metadata'', BValue (JStr (json_stringify w
              (merge_setup (js_or (js_get_opt (js_get_opt (first_result orgResult) ''0'') ''metadata'') (JObj []))
                 patch))))]]"
  using assms
  by (simp add: updateOrganizationMetadata_def select_metadata_def update_metadata_def
      trace_perform Let_def split: sum.splits)

lemma show_nat_digits: "set (show_nat n) \<subseteq> set ''0123456789''"
proof (induction n rule: show_nat.induct)
  case (1 n)
  have d: "\<And>d. d < 10 \<Longrightarrow> digit_char d \<in> set ''0123456789''"
    unfolding digit_char_def by (rule nth_mem) simp
  show ?case
  proof (cases "n < 10")
    case True
    then show ?thesis using d[of n] by (subst show_nat.simps) simp
  next
    case False
    then have "set (show_nat (n div 10)) \<subseteq> set ''0123456789''" using 1 by simp
    moreover have "digit_char (n mod 10) \<in> set ''0123456789''" by (rule d) simp
    ultimately show ?thesis using False by (subst show_nat.simps) simp
  qed
qed

lemma string_spread_none:
  assumes "c \<in> set k" and "c \<notin> set ''0123456789''"
  shows "map_of (js_spread (JStr t)) k = None"
proof -
  have "k \<notin> fst ` set (js_spread (JStr t))"
  proof
    assume "k \<in> fst ` set (js_spread (JStr t))"
    then obtain i where "k = show_nat i" by auto
    with assms show False using show_nat_digits[of i] by blast
  qed
  then show ?thesis by (rule iffD2[OF map_of_eq_None_iff])
qed

lemma string_has_no_named_key:
  assumes "c \<in> set k" and "c \<notin> set ''0123456789''" and "k \<noteq> ''length''"
  shows "js_get_opt (JStr t) k = JUndefined"
  using string_spread_none[OF assms(1,2), of t] assms(3)
  by (simp add: js_get_opt_def lookup_or_undefined_def del: js_spread.simps)

lemma string_has_no_setup: "js_get_opt (JStr t) ''setup'' = JUndefined"
  by (rule string_has_no_named_key[of "CHR ''s''"]) simp_all

lemma json_text_object: "json_text (JObj kvs) \<noteq> []"
  by simp

lemma merge_setup_of_string:
  assumes "c \<in> set k" and "c \<notin> set ''0123456789''" and "k \<noteq> ''setup''"
  shows "js_get_opt (merge_setup (JStr t) patch) k = JUndefined
       \<and> js_get_opt (merge_setup (JStr t) patch) ''setup'' = JObj (assign_all [] patch)"
  using string_spread_none[OF assms(1,2), of t] assms(3) string_has_no_setup[of t]
  by (simp add: merge_setup_def js_or_def lookup_or_undefined_def map_of_set_prop
        js_get_opt_def[of "JObj kvs" for kvs] del: js_spread.simps(2))


lemma js_get_opt_object: "js_get_opt (JObj kvs) k = lookup_or_undefined kvs k"
  by (simp add: js_get_opt_def)

lemma js_get_opt_length: "js_get_opt (JArr xs) ''length'' = JNum (int (length xs))"
  by (simp add: js_get_opt_def)

lemma json_text_merge_setup: "json_text (merge_setup current patch) \<noteq> []"
  by (simp add: merge_setup_def)

lemmas folded_simps =
  setupOrganizationDatabase_def setup_try_def updateOrganizationMetadata_def
  createOrganizationDatabase_def checkOrganizationSetup_def check_try_def
  checkOrganizationDatabaseExists_def
  select_metadata_def update_metadata_def select_organization_def record_id_def full_org_id_def
  first_result_def js_or_def lookup_or_undefined_def org_database_def clean_org_id_def
  starts_with_def ends_with_def schema_file_def http_url_def http_headers_def
  replace_database_name_def replace_global_def replace_first_def replace_prefix_def placeholder_def
  js_get_opt_object js_get_opt_length first_element string_has_no_setup json_text_merge_setup

section \<open>Recording a setup outcome\<close>

text \<open>
  The merge on an object: every top-level key other than \<open>setup\<close> keeps its value,
  and \<open>setup\<close> is the existing \<open>setup\<close> object overridden by the patch (an object:
  each key once), or the patch alone when there was none.
\<close>

lemma merge_setup_frame:
  assumes "distinct (map fst patch)"
  shows "\<exists>m'. merge_setup (JObj m) patch = JObj m'
      \<and> (\<forall>k. k \<noteq> ''setup'' \<longrightarrow> map_of m' k = map_of m k)
      \<and> (\<exists>s'. map_of m' ''setup'' = Some (JObj s')
           \<and> (\<forall>su. map_of m ''setup'' = Some (JObj su) \<longrightarrow> map_of s' = map_of su ++ map_of patch)
           \<and> (map_of m ''setup'' = None \<longrightarrow> map_of s' = map_of patch))"
  using assms
  by (auto simp: merge_setup_def map_of_set_prop map_of_assign_all js_get_opt_def
      lookup_or_undefined_def js_or_def)

lemma merge_setup_frame_example:
  "distinct (map fst (failed_patch ''boom'' ''2025-01-01T00:00:00.000Z''))
   \<and> merge_setup (JObj [(''plan'', JStr ''pro''),
                         (''setup'', JObj [(''database'', JStr ''org_abc''), (''setupStatus'', JStr ''pending'')]),
                         (''seats'', JNum 5)])
         (failed_patch ''boom'' ''2025-01-01T00:00:00.000Z'')
     = JObj [(''plan'', JStr ''pro''),
             (''setup'', JObj [(''database'', JStr ''org_abc''), (''setupStatus'', JStr ''failed''),
                               (''setupError'', JStr ''boom''),
                               (''setupTimestamp'', JStr ''2025-01-01T00:00:00.000Z'')]),
             (''seats'', JNum 5)]"
  using merge_setup_frame[of "failed_patch ''boom'' ''2025-01-01T00:00:00.000Z''"
          "[(''plan'', JStr ''pro''),
            (''setup'', JObj [(''database'', JStr ''org_abc''), (''setupStatus'', JStr ''pending'')]),
            (''seats'', JNum 5)]"]
  by (simp add: service_simps)

text \<open>
  C7. For every existing metadata object and every patch, \<open>updateOrganizationMetadata\<close>
  runs the \<open>SELECT\<close> and then an \<open>UPDATE\<close> that binds \<open>$metadata\<close> to the string
  \<open>JSON.stringify\<close> makes of the merged object; a store that keeps what it is given
  therefore holds that string in the metadata field afterwards, not the merged object.
\<close>

theorem updateOrganizationMetadata_stores_string:
  assumes "getMainDB w cfg s = (Inr authDb, s1)"
    and "query_result w (trace s1 @ [IoQuery authDb ''SELECT metadata FROM $orgId''
            [(''orgId'', BRecordId (record_id organizationId))]]) = Inr (JArr (JObj r # others) # rest)"
    and "map_of r ''metadata'' = Some (JObj m)"
  shows "trace (snd (updateOrganizationMetadata w cfg s organizationId patch))
     = trace s1 @
       [IoQuery authDb ''SELECT metadata FROM $orgId'' [(''orgId'', BRecordId (record_id organizationId))],
        IoQuery authDb ''UPDATE $orgId SET metadata = $metadata''
          [(''orgId'', BRecordId (record_id organizationId)),
           (''metadata'', BValue (JStr (json_stringify w (merge_setup (JObj m) patch))))]]
   \<and> stored initial (record_id organizationId)
         (trace (snd (updateOrganizationMetadata w cfg s organizationId patch)))
       = JStr (json_stringify w (merge_setup (JObj m) patch))
   \<and> stored initial (record_id organizationId)
         (trace (snd (updateOrganizationMetadata w cfg s organizationId patch)))
       \<noteq> merge_setup (JObj m) patch"
proof -
  have cur: "js_or (js_get_opt (js_get_opt (first_result (JArr (JObj r # others) # rest)) ''0'') ''metadata'') (JObj [])
      = JObj m"
    using assms(3) by (simp add: first_result_def first_element metadata_of_record js_or_def)
  have t: "trace (snd (updateOrganizationMetadata w cfg s organizationId patch))
     = trace s1 @
       [IoQuery authDb ''SELECT metadata FROM $orgId'' [(''orgId'', BRecordId (record_id organizationId))],
        IoQuery authDb ''UPDATE $orgId SET metadata = $metadata''
          [(''orgId'', BRecordId (record_id organizationId)),
           (''metadata'', BValue (JStr (json_stringify w (merge_setup (JObj m) patch))))]]"
    using updateOrganizationMetadata_trace[OF assms(1,2), of patch] by (simp only: cur)
  have st: "stored initial (record_id organizationId)
         (trace (snd (updateOrganizationMetadata w cfg s organizationId patch)))
       = JStr (json_stringify w (merge_setup (JObj m) patch))"
    using stored_snoc_update[of initial "record_id organizationId"
        "trace s1 @ [IoQuery authDb ''SELECT metadata FROM $orgId'' [(''orgId'', BRecordId (record_id organizationId))]]"
        authDb "JStr (json_stringify w (merge_setup (JObj m) patch))"]
    by (simp only: t append_assoc append.simps)
  have ne: "JStr (json_stringify w (merge_setup (JObj m) patch)) \<noteq> merge_setup (JObj m) patch"
    by (simp add: merge_setup_def)
  from t st ne show ?thesis by simp
qed

theorem updateOrganizationMetadata_stores_string_witness:
  "trace (snd (updateOrganizationMetadata (store_world (JObj [(''plan'', JStr ''pro'')]) post_ok)
       sample_config init_mstate ''abc'' (failed_patch ''boom'' ''2025-01-01T00:00:00.000Z'')))
     = [IoConnect (Conn 0) ''ws://db:8000/rpc'',
        IoUse (Conn 0) ''needxlife'' ''core'',
        IoQuery (Conn 0) ''SELECT metadata FROM $orgId'' [(''orgId'', BRecordId ''organization:abc'')],
        IoQuery (Conn 0) ''UPDATE $orgId SET metadata = $metadata''
          [(''orgId'', BRecordId ''organization:abc''),
           (''metadata'', BValue (JStr (json_text
              (JObj [(''plan'', JStr ''pro''),
                     (''setup'', JObj [(''setupStatus'', JStr ''failed''), (''setupError'', JStr ''boom''),
                                       (''setupTimestamp'', JStr ''2025-01-01T00:00:00.000Z'')])]))))]]
   \<and> stored (JObj [(''plan'', JStr ''pro'')]) ''organization:abc''
         (trace (snd (updateOrganizationMetadata (store_world (JObj [(''plan'', JStr ''pro'')]) post_ok)
            sample_config init_mstate ''abc'' (failed_patch ''boom'' ''2025-01-01T00:00:00.000Z''))))
       = JStr (json_text
              (JObj [(''plan'', JStr ''pro''),
                     (''setup'', JObj [(''setupStatus'', JStr ''failed''), (''setupError'', JStr ''boom''),
                                       (''setupTimestamp'', JStr ''2025-01-01T00:00:00.000Z'')])]))"
  using updateOrganizationMetadata_stores_string
          [of "store_world (JObj [(''plan'', JStr ''pro'')]) post_ok" sample_config
              init_mstate "Conn 0"
              "snd (getMainDB (store_world (JObj [(''plan'', JStr ''pro'')]) post_ok)
                     sample_config init_mstate)"
              "''abc''" "[(''id'', JStr ''organization:abc''), (''metadata'', JObj [(''plan'', JStr ''pro'')])]"
              "[]" "[]" "[(''plan'', JStr ''pro'')]" "failed_patch ''boom'' ''2025-01-01T00:00:00.000Z''"
              "JObj [(''plan'', JStr ''pro'')]"]
  by (simp add: manager_simps service_simps sample_simps store_simps show_nat_0 upt_rec
        del: json_text.simps)

text \<open>
  C4. The claim fails on the code once an outcome has been recorded: the recording
  writes the merged object as JSON text (C7) and the next recording does not parse what
  it reads, so it spreads the text into its characters. In a store that keeps what it
  is given, the first recording on \<open>{plan: 'pro'}\<close> keeps \<open>plan\<close>; the second recording
  merges into that text, and its merged object has no \<open>plan\<close> and a \<open>setup\<close> that is the
  patch alone. (On metadata read as an object the merge is as claimed,
  \<open>merge_setup_frame\<close>.)
\<close>

theorem recorded_metadata_is_not_merged:
  "stored (JObj [(''plan'', JStr ''pro'')]) ''organization:abc''
      (trace (snd (updateOrganizationMetadata (store_world (JObj [(''plan'', JStr ''pro'')]) post_ok)
         sample_config init_mstate ''abc'' (failed_patch ''boom'' ''2025-01-01T00:00:00.000Z''))))
     = JStr (json_text (merge_setup (JObj [(''plan'', JStr ''pro'')])
                          (failed_patch ''boom'' ''2025-01-01T00:00:00.000Z'')))
   \<and> js_get_opt (merge_setup (JObj [(''plan'', JStr ''pro'')])
                      (failed_patch ''boom'' ''2025-01-01T00:00:00.000Z'')) ''plan'' = JStr ''pro''
   \<and> stored (JObj [(''plan'', JStr ''pro'')]) ''organization:abc''
      (trace (snd (updateOrganizationMetadata (store_world (JObj [(''plan'', JStr ''pro'')]) post_ok)
         sample_config
         (snd (updateOrganizationMetadata (store_world (JObj [(''plan'', JStr ''pro'')]) post_ok)
            sample_config init_mstate ''abc'' (failed_patch ''boom'' ''2025-01-01T00:00:00.000Z'')))
         ''abc'' (completed_patch ''abc'' ''2025-01-02T00:00:00.000Z'' ''retail''))))
     = JStr (json_text
         (merge_setup
            (JStr (json_text (merge_setup (JObj [(''plan'', JStr ''pro'')])
                                (failed_patch ''boom'' ''2025-01-01T00:00:00.000Z''))))
            (completed_patch ''abc'' ''2025-01-02T00:00:00.000Z'' ''retail'')))
   \<and> js_get_opt
         (merge_setup
            (JStr (json_text (merge_setup (JObj [(''plan'', JStr ''pro'')])
                                (failed_patch ''boom'' ''2025-01-01T00:00:00.000Z''))))
            (completed_patch ''abc'' ''2025-01-02T00:00:00.000Z'' ''retail'')) ''plan'' = JUndefined
   \<and> js_get_opt
         (merge_setup
            (JStr (json_text (merge_setup (JObj [(''plan'', JStr ''pro'')])
                                (failed_patch ''boom'' ''2025-01-01T00:00:00.000Z''))))
            (completed_patch ''abc'' ''2025-01-02T00:00:00.000Z'' ''retail'')) ''setup''
       = JObj (completed_patch ''abc'' ''2025-01-02T00:00:00.000Z'' ''retail'')"
proof -
  have lost: "\<And>t p. js_get_opt (merge_setup (JStr t) p) ''plan'' = JUndefined
      \<and> js_get_opt (merge_setup (JStr t) p) ''setup'' = JObj (assign_all [] p)"
    by (rule merge_setup_of_string[of "CHR ''p''"]) simp_all
  have fresh: "assign_all [] (completed_patch ''abc'' ''2025-01-02T00:00:00.000Z'' ''retail'')
      = completed_patch ''abc'' ''2025-01-02T00:00:00.000Z'' ''retail''"
    by (simp add: assign_all_def completed_patch_def)
  have kept: "js_get_opt (merge_setup (JObj [(''plan'', JStr ''pro'')])
                      (failed_patch ''boom'' ''2025-01-01T00:00:00.000Z'')) ''plan'' = JStr ''pro''"
    by (simp add: merge_setup_def js_get_opt_def lookup_or_undefined_def map_of_set_prop)
  show ?thesis
    by (simp add: lost fresh kept)
       (simp add: manager_simps sample_simps store_simps folded_simps del: json_text.simps)
qed

section \<open>Provisioning and its outcome\<close>

lemma setup_failure_reported:
  assumes "fst (setup_try w cfg s ts organizationId orgType) = Inl e"
  shows "fst (setupOrganizationDatabase w cfg s ts organizationId orgType)
           = Inr \<lparr>success = False, database = org_database (clean_org_id organizationId),
                  organizationType = orgType, error = Some (error_message e), timestamp = ts\<rparr>"
  using assms
  by (cases "setup_try w cfg s ts organizationId orgType")
     (simp add: setupOrganizationDatabase_def Let_def split: prod.splits)

text \<open>
  C2. The claim fails on the code where the \<open>completed\<close> status cannot be written: the
  database is created (the post succeeds), the write of the \<open>completed\<close> status is
  refused, and \<open>setupOrganizationDatabase\<close> reports \<open>success = false\<close> with the error of
  the write. (The other half holds, \<open>setup_failure_reported\<close>: a failure of the \<open>try\<close>
  block is reported whatever becomes of the write of the \<open>failed\<close> status.)
\<close>

theorem setup_completed_write_fails:
  "fst (createOrganizationDatabase (sample_world (read_only JNull) post_ok) sample_config
          init_mstate ''abc'' ''retail'') = Inr (JArr [])
   \<and> fst (setupOrganizationDatabase (sample_world (read_only JNull) post_ok) sample_config
            init_mstate ''2025-01-01T00:00:00.000Z'' ''abc'' ''retail'')
       = Inr \<lparr>success = False, database = ''org_abc'', organizationType = ''retail'',
              error = Some ''write refused'', timestamp = ''2025-01-01T00:00:00.000Z''\<rparr>"
  by (simp add: manager_simps service_simps sample_simps show_nat_0 upt_rec)

text \<open>
  C3 (as amended). For every organization id and every organization type other than
  \<open>retail\<close> and \<open>restaurant\<close>, \<open>setupOrganizationDatabase\<close> returns, without throwing,
  \<open>success = false\<close> with the message \<open>Invalid organization type: ...\<close>; the state it
  leaves is the one left by recording the \<open>failed\<close> status from the state it was called
  in, and everything it does is database I/O on the control tenant: no template is read
  and no HTTP post made.
\<close>

theorem setup_invalid_type:
  assumes "orgType \<noteq> ''retail''" and "orgType \<noteq> ''restaurant''"
  shows "setupOrganizationDatabase w cfg s ts organizationId orgType
           = (Inr \<lparr>success = False, database = org_database (clean_org_id organizationId),
                   organizationType = orgType, error = Some (invalid_type_message orgType),
                   timestamp = ts\<rparr>,
              snd (updateOrganizationMetadata w cfg s organizationId
                     (failed_patch (invalid_type_message orgType) ts)))
       \<and> (\<exists>ext. trace (snd (setupOrganizationDatabase w cfg s ts organizationId orgType)) = trace s @ ext
              \<and> list_all is_database_io ext)"
proof -
  have eq: "setupOrganizationDatabase w cfg s ts organizationId orgType
           = (Inr \<lparr>success = False, database = org_database (clean_org_id organizationId),
                   organizationType = orgType, error = Some (invalid_type_message orgType),
                   timestamp = ts\<rparr>,
              snd (updateOrganizationMetadata w cfg s organizationId
                     (failed_patch (invalid_type_message orgType) ts)))"
    using assms
    by (simp add: setupOrganizationDatabase_def setup_try_def Let_def split: prod.splits)
  show ?thesis
    using updateOrganizationMetadata_io[of w cfg s organizationId "failed_patch (invalid_type_message orgType) ts"]
    by (simp add: eq)
qed

theorem setup_invalid_type_witness:
  "''bogus-type'' \<noteq> ''retail'' \<and> ''bogus-type'' \<noteq> ''restaurant''
   \<and> fst (setupOrganizationDatabase (sample_world (one_record JNull) post_ok) sample_config
            init_mstate ''2025-01-01T00:00:00.000Z'' ''abc'' ''bogus-type'')
       = Inr \<lparr>success = False, database = ''org_abc'', organizationType = ''bogus-type'',
              error = Some (invalid_type_message ''bogus-type''),
              timestamp = ''2025-01-01T00:00:00.000Z''\<rparr>"
  using setup_invalid_type[of "''bogus-type''" "sample_world (one_record JNull) post_ok"
          sample_config init_mstate "''2025-01-01T00:00:00.000Z''" "''abc''"]
  by (simp add: org_database_def clean_org_id_def starts_with_def)

text \<open>
  C3 as stated fails: after the rejection the \<open>failed\<close> status is recorded, which
  connects to the control tenant and runs two queries.
\<close>

theorem setup_invalid_type_counterexample:
  "filter is_network (trace (snd (setupOrganizationDatabase (sample_world (one_record JNull) post_ok)
       sample_config init_mstate ''2025-01-01T00:00:00.000Z'' ''abc'' ''bogus-type'')))
   = [IoConnect (Conn 0) ''ws://db:8000/rpc'',
      IoUse (Conn 0) ''needxlife'' ''core'',
      IoQuery (Conn 0) ''SELECT metadata FROM $orgId'' [(''orgId'', BRecordId ''organization:abc'')],
      IoQuery (Conn 0) ''UPDATE $orgId SET metadata = $metadata''
        [(''orgId'', BRecordId ''organization:abc''), (''metadata'', BValue (JStr ''{setup}''))]]"
  by (simp add: manager_simps service_simps sample_simps show_nat_0 upt_rec)

lemma setupOrganizationDatabase_returns:
  "\<exists>r. fst (setupOrganizationDatabase w cfg s ts organizationId orgType) = Inr r
     \<and> database r = org_database (clean_org_id organizationId)"
  by (auto simp: setupOrganizationDatabase_def setup_try_def Let_def split: prod.splits sum.splits)

lemma createOrganizationDatabase_posts:
  "IoHttpPost u b h \<in> set (trace (snd (createOrganizationDatabase w cfg s orgId orgType)))
     \<Longrightarrow> IoHttpPost u b h \<in> set (trace s) \<or> h = http_headers w cfg (org_database orgId)"
  by (auto simp: createOrganizationDatabase_def perform_def Let_def split: sum.splits)

lemma database_io_no_post:
  "trace s' = trace s @ ext \<Longrightarrow> list_all is_database_io ext
     \<Longrightarrow> IoHttpPost u b h \<in> set (trace s') \<Longrightarrow> IoHttpPost u b h \<in> set (trace s)"
  by (auto simp: list_all_iff)

lemma updateOrganizationMetadata_posts:
  "IoHttpPost u b h \<in> set (trace (snd (updateOrganizationMetadata w cfg s organizationId patch)))
     \<Longrightarrow> IoHttpPost u b h \<in> set (trace s)"
  using updateOrganizationMetadata_io[of w cfg s organizationId patch] database_io_no_post
  by blast

lemma setupOrganizationDatabase_posts:
  assumes "IoHttpPost u b h \<in> set (trace (snd (setupOrganizationDatabase w cfg s ts organizationId orgType)))"
  shows "IoHttpPost u b h \<in> set (trace s)
           \<or> h = http_headers w cfg (org_database (clean_org_id organizationId))"
proof -
  define P where "P x \<longleftrightarrow> (IoHttpPost u b h \<in> set (trace x) \<longrightarrow>
      IoHttpPost u b h \<in> set (trace s)
        \<or> h = http_headers w cfg (org_database (clean_org_id organizationId)))" for x :: mstate
  have P0: "P s" by (simp add: P_def)
  have Pc: "\<And>r x. createOrganizationDatabase w cfg s (clean_org_id organizationId) orgType = (r, x) \<Longrightarrow> P x"
    using createOrganizationDatabase_posts[of u b h w cfg s "clean_org_id organizationId" orgType]
    by (auto simp: P_def)
  have Pu: "\<And>x p r x'. P x \<Longrightarrow> updateOrganizationMetadata w cfg x organizationId p = (r, x') \<Longrightarrow> P x'"
  proof -
    fix x p r x' assume "P x" and e: "updateOrganizationMetadata w cfg x organizationId p = (r, x')"
    with updateOrganizationMetadata_posts[of u b h w cfg x organizationId p]
    show "P x'" by (auto simp: P_def)
  qed
  obtain rt st where t: "setup_try w cfg s ts organizationId orgType = (rt, st)"
    by (cases "setup_try w cfg s ts organizationId orgType")
  obtain rc s1 where c: "createOrganizationDatabase w cfg s (clean_org_id organizationId) orgType = (rc, s1)"
    by (cases "createOrganizationDatabase w cfg s (clean_org_id organizationId) orgType")
  obtain ru s2 where m: "updateOrganizationMetadata w cfg s1 organizationId
      (completed_patch (clean_org_id organizationId) ts orgType) = (ru, s2)"
    by (cases "updateOrganizationMetadata w cfg s1 organizationId
      (completed_patch (clean_org_id organizationId) ts orgType)")
  have "st = s \<or> st = s1 \<or> st = s2"
    using t c m by (auto simp: setup_try_def Let_def split: if_splits sum.splits)
  moreover have "P s1" using Pc c by blast
  moreover have "P s2" using Pu \<open>P s1\<close> m by blast
  ultimately have st: "P st" using P0 by blast
  obtain rf sf where f: "updateOrganizationMetadata w cfg st organizationId
      (failed_patch (error_message (case rt of Inl e \<Rightarrow> e)) ts) = (rf, sf)"
    by (cases "updateOrganizationMetadata w cfg st organizationId
      (failed_patch (error_message (case rt of Inl e \<Rightarrow> e)) ts)")
  have "P sf" using Pu st f by blast
  moreover have "snd (setupOrganizationDatabase w cfg s ts organizationId orgType) = st
      \<or> snd (setupOrganizationDatabase w cfg s ts organizationId orgType) = sf"
    using t f by (cases rt) (simp_all add: setupOrganizationDatabase_def Let_def)
  ultimately have "P (snd (setupOrganizationDatabase w cfg s ts organizationId orgType))"
    using st by auto
  with assms show ?thesis by (simp add: P_def)
qed


lemma clean_org_id_plain: "\<not> starts_with organizationId ''organization:'' \<Longrightarrow> clean_org_id organizationId = organizationId"
  by (simp add: clean_org_id_def)

text \<open>
  C6 (as amended). For every organization id that does not begin with
  \<open>organization:\<close>, the database name \<open>setupOrganizationDatabase\<close> reports and sends in
  the \<open>Surreal-DB\<close> header of its post is the name \<open>getOrganizationDatabase\<close> derives for
  the same id; the namespaces agree as well when \<open>ORG_NS\<close> has its default value.
\<close>

theorem database_name_agreement:
  assumes "\<not> starts_with organizationId ''organization:''"
  shows "(\<exists>r. fst (setupOrganizationDatabase w cfg s ts organizationId orgType) = Inr r
            \<and> database r = snd (getOrganizationDatabase_target cfg organizationId))
       \<and> (\<forall>u b h. IoHttpPost u b h \<in> set (trace (snd (setupOrganizationDatabase w cfg s ts organizationId orgType)))
            \<longrightarrow> IoHttpPost u b h \<in> set (trace s)
              \<or> map_of h ''Surreal-DB'' = Some (snd (getOrganizationDatabase_target cfg organizationId))
                \<and> (ORG_NS cfg = ''needexcel_organization''
                     \<longrightarrow> map_of h ''Surreal-NS'' = Some (fst (getOrganizationDatabase_target cfg organizationId))))"
proof -
  have n: "org_database (clean_org_id organizationId) = snd (getOrganizationDatabase_target cfg organizationId)"
    using assms by (simp add: clean_org_id_plain getOrganizationDatabase_target_def)
  have r: "\<exists>r. fst (setupOrganizationDatabase w cfg s ts organizationId orgType) = Inr r
            \<and> database r = snd (getOrganizationDatabase_target cfg organizationId)"
    using setupOrganizationDatabase_returns[of w cfg s ts organizationId orgType] n by simp
  have h: "\<And>h. h = http_headers w cfg (org_database (clean_org_id organizationId)) \<Longrightarrow>
      map_of h ''Surreal-DB'' = Some (snd (getOrganizationDatabase_target cfg organizationId))
       \<and> (ORG_NS cfg = ''needexcel_organization''
             \<longrightarrow> map_of h ''Surreal-NS'' = Some (fst (getOrganizationDatabase_target cfg organizationId)))"
    by (simp add: http_headers_def n[symmetric]) (simp add: getOrganizationDatabase_target_def)
  show ?thesis
    using r h setupOrganizationDatabase_posts[of _ _ _ w cfg s ts organizationId orgType]
    by blast
qed

theorem database_name_agreement_witness:
  "\<not> starts_with ''abc'' ''organization:''
   \<and> fst (setupOrganizationDatabase (sample_world (one_record JNull) post_ok) sample_config
            init_mstate ''2025-01-01T00:00:00.000Z'' ''abc'' ''retail'')
       = Inr \<lparr>success = True, database = ''org_abc'', organizationType = ''retail'',
              error = None, timestamp = ''2025-01-01T00:00:00.000Z''\<rparr>
   \<and> getOrganizationDatabase_target sample_config ''abc'' = (''needexcel_organization'', ''org_abc'')"
  using database_name_agreement[of "''abc''" "sample_world (one_record JNull) post_ok" sample_config
          init_mstate "''2025-01-01T00:00:00.000Z''" "''retail''"]
  by (simp add: manager_simps service_simps sample_simps show_nat_0 upt_rec
        getOrganizationDatabase_target_def)

text \<open>
  C6 as stated fails for an id that begins with \<open>organization:\<close>: the setup service
  strips the prefix before deriving the name, \<open>getOrganizationDatabase\<close> does not.
\<close>

theorem database_name_prefix_counterexample:
  "fst (setupOrganizationDatabase (sample_world (one_record JNull) post_ok) sample_config
            init_mstate ''2025-01-01T00:00:00.000Z'' ''organization:abc'' ''retail'')
       = Inr \<lparr>success = True, database = ''org_abc'', organizationType = ''retail'',
              error = None, timestamp = ''2025-01-01T00:00:00.000Z''\<rparr>
   \<and> getOrganizationDatabase_target sample_config ''organization:abc''
       = (''needexcel_organization'', ''org_organization:abc'')"
  by (simp add: manager_simps service_simps sample_simps show_nat_0 upt_rec
        getOrganizationDatabase_target_def)

lemma expand_replacement_plain:
  "CHR ''$'' \<notin> set replacement \<Longrightarrow> expand_replacement matched before after replacement = replacement"
  by (induction matched before after replacement rule: expand_replacement.induct) auto

lemma replace_global_from_plain:
  "CHR ''$'' \<notin> set name \<Longrightarrow> replace_global_from pat name before s = substitute_verbatim pat name s"
  by (induction pat name before s rule: replace_global_from.induct)
     (auto simp: expand_replacement_plain)

lemma replace_database_name_plain:
  "CHR ''$'' \<notin> set name \<Longrightarrow> replace_database_name schemaContent name = substitute_verbatim placeholder name schemaContent"
  by (simp add: replace_database_name_def replace_global_def replace_global_from_plain)

text \<open>
  C9. The claim fails on the code for a database name that contains a replacement
  pattern: for the organization id \<open>a$&b\<close> the script posted has the placeholder where the
  name has \<open>$&\<close>, while the verbatim substitution has the name. (For a name without a
  dollar sign the two agree, \<open>replace_database_name_plain\<close>.)
\<close>

theorem replace_database_name_dollar:
  "trace (snd (createOrganizationDatabase (sample_world no_record post_ok) sample_config
       init_mstate ''a$&b'' ''retail''))
     = [IoReadFile ''/app/schema-retail.surql'',
        IoHttpPost ''http://db:8000/sql'' ''DEFINE DATABASE org_a__DATABASE_NAME__b;''
          [(''Content-Type'', ''application/octet-stream''), (''Accept'', ''application/json''),
           (''Authorization'', ''Basic root:secret''),
           (''Surreal-NS'', ''needexcel_organization''), (''Surreal-DB'', ''org_a$&b'')]]
   \<and> substitute_verbatim placeholder (org_database ''a$&b'') ''DEFINE DATABASE __DATABASE_NAME__;''
     = ''DEFINE DATABASE org_a$&b;''"
  by (simp add: manager_simps service_simps sample_simps)

section \<open>Checking the setup\<close>

lemma checkOrganizationSetup_total:
  "\<exists>res. fst (checkOrganizationSetup w cfg s organizationId) = Inr res"
  by (simp add: checkOrganizationSetup_def split: prod.splits sum.splits)

text \<open>
  C8. When the control tenant answers the \<open>SELECT\<close> with no record (no statement
  result, or an empty one), \<open>checkOrganizationSetup\<close> returns \<open>isSetup = false\<close>, status
  \<open>pending\<close> and the error \<open>Organization not found\<close>, having done nothing after the
  query; and whatever its input, it returns a result and never throws.
\<close>

theorem checkOrganizationSetup_not_found:
  assumes "getMainDB w cfg s = (Inr authDb, s1)"
    and "query_result w (trace s1 @ [select_organization authDb (full_org_id organizationId)])
           = Inr orgResult"
    and "orgResult = [] \<or> (\<exists>rest. orgResult = JArr [] # rest)"
  shows "checkOrganizationSetup w cfg s organizationId
           = (Inr \<lparr>isSetup = False,
                   check_database = JStr (org_database (clean_org_id organizationId)),
                   status = JStr ''pending'', check_error = JStr ''Organization not found'',
                   check_metadata = JUndefined\<rparr>,
              perform s1 (select_organization authDb (full_org_id organizationId)))
       \<and> (\<forall>w' cfg' s' organizationId'.
             \<exists>res. fst (checkOrganizationSetup w' cfg' s' organizationId') = Inr res)"
  using assms checkOrganizationSetup_total
  by (auto simp: checkOrganizationSetup_def check_try_def perform_def first_result_def
      js_get_opt_def Let_def split: list.splits)

theorem checkOrganizationSetup_not_found_witness:
  "fst (checkOrganizationSetup (sample_world no_record post_ok) sample_config init_mstate ''abc'')
     = Inr \<lparr>isSetup = False, check_database = JStr ''org_abc'', status = JStr ''pending'',
            check_error = JStr ''Organization not found'', check_metadata = JUndefined\<rparr>"
  using checkOrganizationSetup_not_found
          [of "sample_world no_record post_ok" sample_config init_mstate "Conn 0"
              "snd (getMainDB (sample_world no_record post_ok) sample_config init_mstate)"
              "''abc''" "[JArr []]"]
  by (simp add: manager_simps service_simps sample_simps)

text \<open>
  The status reported for a record whose metadata is read as an object: \<open>pending\<close>
  when the database does not exist; the stored (non-empty) \<open>setupStatus\<close> when it exists
  and \<open>setup\<close> is an object; \<open>completed\<close> when it exists and there is no \<open>setup\<close>.
\<close>

lemma checkOrganizationSetup_status:
  assumes "getMainDB w cfg s = (Inr authDb, s1)"
    and "query_result w (trace s1 @ [select_organization authDb (full_org_id organizationId)])
           = Inr (JArr (JObj r # others) # rest)"
    and "checkOrganizationDatabaseExists w cfg
           (perform s1 (select_organization authDb (full_org_id organizationId)))
           (clean_org_id organizationId) = (Inr dbExists, s3)"
  shows "\<exists>res. fst (checkOrganizationSetup w cfg s organizationId) = Inr res
     \<and> (\<not> dbExists \<longrightarrow> \<not> isSetup res \<and> status res = JStr ''pending'')
     \<and> (dbExists \<longrightarrow>
          (\<forall>su st. js_get_opt (lookup_or_undefined r ''metadata'') ''setup'' = JObj su
               \<and> map_of su ''setupStatus'' = Some (JStr st) \<and> st \<noteq> []
             \<longrightarrow> status res = JStr st \<and> isSetup res = (st = ''completed'')))
     \<and> (dbExists \<and> js_get_opt (lookup_or_undefined r ''metadata'') ''setup'' = JUndefined
          \<longrightarrow> isSetup res \<and> status res = JStr ''completed'')"
proof -
  have rec: "js_get (js_get_opt (JArr (JObj r # others)) ''0'') ''metadata''
               = Inr (lookup_or_undefined r ''metadata'')"
    by (simp add: first_element)
  have len: "js_get_opt (JArr (JObj r # others)) ''length'' \<noteq> JNum 0"
    by (simp add: js_get_opt_def)
  have st: "\<And>su st. map_of su ''setupStatus'' = Some (JStr st) \<Longrightarrow> st \<noteq> [] \<Longrightarrow>
      js_get_opt (JObj su) ''setupStatus'' = JStr st"
    by (simp add: js_get_opt_def lookup_or_undefined_def)
  show ?thesis
    using assms
    by (auto simp: checkOrganizationSetup_def check_try_def first_result_def rec len st js_or_def
        trace_perform Let_def)
qed

text \<open>
  C5. The claim fails on the code for a status this service recorded itself: the
  outcome is written as JSON text (C7) and \<open>checkOrganizationSetup\<close> reads
  \<open>org.metadata?.setup\<close> without parsing, which is \<open>undefined\<close> on a string. In a store
  that keeps what it is given, after a provisioning that failed and recorded \<open>failed\<close>,
  with the database reported as existing, the check returns \<open>isSetup = true\<close> and
  \<open>completed\<close>. (The other two cases hold, and the stored status is returned when the
  metadata is read as an object, \<open>checkOrganizationSetup_status\<close>.)
\<close>

theorem recorded_status_is_not_read:
  "stored JNull ''organization:abc''
      (trace (snd (setupOrganizationDatabase (store_world JNull post_refused) sample_config
         init_mstate ''2025-01-01T00:00:00.000Z'' ''abc'' ''retail'')))
     = JStr (json_text (merge_setup (JObj [])
               (failed_patch ''Request failed with status code 400'' ''2025-01-01T00:00:00.000Z'')))
   \<and> fst (checkOrganizationSetup (store_world JNull post_refused) sample_config
         (snd (setupOrganizationDatabase (store_world JNull post_refused) sample_config
            init_mstate ''2025-01-01T00:00:00.000Z'' ''abc'' ''retail''))
         ''abc'')
     = Inr \<lparr>isSetup = True, check_database = JStr ''org_abc'', status = JStr ''completed'',
            check_error = JUndefined, check_metadata = JUndefined\<rparr>"
  by (simp add: manager_simps sample_simps store_simps folded_simps del: json_text.simps)

text \<open>
  C10. \<open>checkOrganizationDatabaseExists\<close> always returns a boolean and never throws:
  \<open>true\<close> with the state untouched (no I/O) when the key is cached; otherwise \<open>false\<close>
  when the connection cannot be obtained or \<open>INFO FOR DB;\<close> fails, and whether the
  response is non-empty when it succeeds.
\<close>

theorem checkOrganizationDatabaseExists_reports:
  "(\<exists>b. fst (checkOrganizationDatabaseExists w cfg s orgId) = Inr b)
   \<and> (connections s (conn_key ''needexcel_organization'' (org_database orgId)) \<noteq> None
        \<longrightarrow> checkOrganizationDatabaseExists w cfg s orgId = (Inr True, s))
   \<and> (connections s (conn_key ''needexcel_organization'' (org_database orgId)) = None \<longrightarrow>
        (\<forall>e s1. getConnection w cfg s ''needexcel_organization'' (org_database orgId) = (Inl e, s1)
           \<longrightarrow> checkOrganizationDatabaseExists w cfg s orgId = (Inr False, s1))
      \<and> (\<forall>db s1. getConnection w cfg s ''needexcel_organization'' (org_database orgId) = (Inr db, s1)
           \<longrightarrow> snd (checkOrganizationDatabaseExists w cfg s orgId) = perform s1 (IoQuery db ''INFO FOR DB;'' [])
             \<and> (\<forall>e. query_result w (trace s1 @ [IoQuery db ''INFO FOR DB;'' []]) = Inl e
                    \<longrightarrow> fst (checkOrganizationDatabaseExists w cfg s orgId) = Inr False)
             \<and> (\<forall>res. query_result w (trace s1 @ [IoQuery db ''INFO FOR DB;'' []]) = Inr res
                    \<longrightarrow> fst (checkOrganizationDatabaseExists w cfg s orgId) = Inr (res \<noteq> []))))"
  by (auto simp: checkOrganizationDatabaseExists_def conn_key_def trace_perform Let_def
      split: prod.splits sum.splits)

theorem checkOrganizationDatabaseExists_reports_witness:
  "checkOrganizationDatabaseExists (sample_world no_record post_ok) sample_config
       (init_mstate\<lparr>connections := [''needexcel_organization:org_abc'' \<mapsto> Conn 7]\<rparr>) ''abc''
     = (Inr True, init_mstate\<lparr>connections := [''needexcel_organization:org_abc'' \<mapsto> Conn 7]\<rparr>)
   \<and> fst (checkOrganizationDatabaseExists (sample_world (one_record JNull) post_ok) sample_config
            init_mstate ''abc'') = Inr True
   \<and> fst (checkOrganizationDatabaseExists
            ((sample_world (one_record JNull) post_ok)\<lparr>net_failure := (\<lambda>tr. Some (JsError ''refused''))\<rparr>)
            sample_config init_mstate ''abc'') = Inr False"
  using checkOrganizationDatabaseExists_reports
          [of "sample_world no_record post_ok" sample_config
              "init_mstate\<lparr>connections := [''needexcel_organization:org_abc'' \<mapsto> Conn 7]\<rparr>" "''abc''"]
        checkOrganizationDatabaseExists_reports
          [of "sample_world (one_record JNull) post_ok" sample_config init_mstate "''abc''"]
  by (simp add: manager_simps service_simps sample_simps)

end
